theory Spec2Isabelle
  imports Complex_Main "HOL-Library.Word"
begin

unbundle bit_operations_syntax

section \<open>Values shared by the audio bridge\<close>

text \<open>
  A \<open>Uint8Array\<close> is a list of 8-bit words and an \<open>Int16Array\<close> a list of 16-bit words.
  A JavaScript exception is a value of \<open>js_error\<close>; a function that can throw returns
  \<open>js_error + 'a\<close> with \<open>Inl\<close> for the exception.

  JavaScript numbers that carry audio samples and clock readings are modelled as reals:
  every finite float is a real, the scaling by \<open>32768\<close> (a power of two) is exact on
  floats, and a 16-bit integer divided by \<open>32768\<close> is exactly representable. The one
  non-finite value the decoder can produce, \<open>NaN\<close> from a read past the end of a typed
  array, is a constructor of \<open>sample\<close>.
\<close>

type_synonym byte = "8 word"
type_synonym int16 = "16 word"

datatype js_error =
    TypeError
  | RangeError
  | InvalidCharacterError
  | NotSupportedError
  | SyntaxError
  | ServiceError

datatype sample = Finite real | NaN

section \<open>services/gemini: the byte/text codec (encodeAudio, decodeAudio)\<close>

text \<open>
  Modelled from the spec: \<open>btoa\<close> and \<open>atob\<close> are functions of the browser, not of the
  repository; the spec names the transport representation "standard base64". \<open>btoa\<close> is
  the RFC 4648 encoder with padding; \<open>atob\<close> is the forgiving decoder of the platform:
  ASCII whitespace is removed, one or two trailing \<open>=\<close> are removed when the length is a
  multiple of four, a remaining length of \<open>1\<close> modulo \<open>4\<close> or a character outside the
  alphabet is an \<open>InvalidCharacterError\<close>, and the left-over bits of a final group of two
  or three characters are dropped.

  A binary string is a \<open>string\<close>: a HOL character is one code unit in \<open>0..255\<close>, which is
  all that \<open>String.fromCharCode\<close> of a byte produces, so the check of \<open>btoa\<close> for code units
  above \<open>255\<close> can never fire on the strings of \<open>encodeAudio\<close>.
\<close>

definition b64_char :: "nat \<Rightarrow> char" where
  "b64_char n =
     (if n < 26 then char_of (65 + n)
      else if n < 52 then char_of (71 + n)
      else if n < 62 then char_of (n - 4)
      else if n = 62 then CHR ''+''
      else CHR ''/'')"

definition b64_value :: "char \<Rightarrow> nat option" where
  "b64_value c =
     (let k = (of_char c :: nat) in
      if 65 \<le> k \<and> k \<le> 90 then Some (k - 65)
      else if 97 \<le> k \<and> k \<le> 122 then Some (k - 71)
      else if 48 \<le> k \<and> k \<le> 57 then Some (k + 4)
      else if k = 43 then Some 62
      else if k = 47 then Some 63
      else None)"

fun btoa_groups :: "nat list \<Rightarrow> string" where
  "btoa_groups (a # b # c # r) =
     [b64_char (a div 4), b64_char ((a mod 4) * 16 + b div 16),
      b64_char ((b mod 16) * 4 + c div 64), b64_char (c mod 64)] @ btoa_groups r"
| "btoa_groups [a, b] =
     [b64_char (a div 4), b64_char ((a mod 4) * 16 + b div 16),
      b64_char ((b mod 16) * 4), CHR ''='']"
| "btoa_groups [a] =
     [b64_char (a div 4), b64_char ((a mod 4) * 16), CHR ''='', CHR ''='']"
| "btoa_groups [] = []"

definition btoa :: "string \<Rightarrow> string" where
  "btoa binary = btoa_groups (map of_char binary)"

definition ascii_whitespace :: "char \<Rightarrow> bool" where
  "ascii_whitespace c = ((of_char c :: nat) \<in> {9, 10, 12, 13, 32})"

definition strip_padding :: "string \<Rightarrow> string" where
  "strip_padding s =
     (if length s mod 4 = 0 \<and> s \<noteq> [] \<and> last s = CHR ''='' then
        (if butlast s \<noteq> [] \<and> last (butlast s) = CHR ''='' then butlast (butlast s)
         else butlast s)
      else s)"

fun atob_groups :: "nat list \<Rightarrow> nat list" where
  "atob_groups (a # b # c # d # r) =
     [a * 4 + b div 16, (b mod 16) * 16 + c div 4, (c mod 4) * 64 + d] @ atob_groups r"
| "atob_groups [a, b, c] = [a * 4 + b div 16, (b mod 16) * 16 + c div 4]"
| "atob_groups [a, b] = [a * 4 + b div 16]"
| "atob_groups [a] = []"
| "atob_groups [] = []"

definition atob :: "string \<Rightarrow> js_error + string" where
  "atob data =
     (let s = strip_padding (filter (\<lambda>c. \<not> ascii_whitespace c) data) in
      if length s mod 4 = 1 then Inl InvalidCharacterError
      else (case those (map b64_value s) of
              None \<Rightarrow> Inl InvalidCharacterError
            | Some vs \<Rightarrow> Inr (map char_of (atob_groups vs))))"

text \<open>
  \<open>encodeAudio\<close>: the loop appends \<open>String.fromCharCode(bytes[i])\<close> for every index, then
  \<open>btoa\<close>. \<open>decodeAudio\<close>: \<open>atob\<close>, then the loop stores \<open>charCodeAt(i)\<close> into a fresh
  \<open>Uint8Array\<close> of the same length; an exception of \<open>atob\<close> leaves the function.
\<close>

definition encodeAudio :: "byte list \<Rightarrow> string" where
  "encodeAudio bytes = btoa (map (\<lambda>b. char_of (unat b)) bytes)"

definition decodeAudio :: "string \<Rightarrow> js_error + byte list" where
  "decodeAudio base64 =
     (case atob base64 of
        Inl e \<Rightarrow> Inl e
      | Inr binaryString \<Rightarrow> Inr (map (\<lambda>c. of_nat (of_char c)) binaryString))"

section \<open>The PCM frame codec\<close>

subsection \<open>Capture side (VoiceAgent.tsx, onaudioprocess, lines 124-129)\<close>

text \<open>
  Storing a number into an \<open>Int16Array\<close> slot converts it with \<open>ToInt16\<close>: the number is
  truncated towards zero and reduced modulo \<open>2^16\<close> into the signed range. The byte view
  \<open>new Uint8Array(int16.buffer)\<close> lists each slot low byte first (the little-endian
  layout the spec names).
\<close>

definition js_truncate :: "real \<Rightarrow> int" where
  "js_truncate x = (if 0 \<le> x then \<lfloor>x\<rfloor> else \<lceil>x\<rceil>)"

definition ToInt16 :: "real \<Rightarrow> int16" where
  "ToInt16 x = word_of_int (js_truncate x)"

definition samplesToInt16 :: "real list \<Rightarrow> int16 list" where
  "samplesToInt16 inputData = map (\<lambda>x. ToInt16 (x * 32768)) inputData"

definition int16_bytes :: "int16 \<Rightarrow> byte list" where
  "int16_bytes w = [ucast w, ucast (drop_bit 8 w)]"

definition Uint8Array_of_Int16 :: "int16 list \<Rightarrow> byte list" where
  "Uint8Array_of_Int16 ws = concat (map int16_bytes ws)"

definition samplesToFrame :: "real list \<Rightarrow> byte list" where
  "samplesToFrame inputData = Uint8Array_of_Int16 (samplesToInt16 inputData)"

subsection \<open>Playback side (services/gemini, decodeAudioData)\<close>

text \<open>
  A \<open>Uint8Array\<close> is a view of a buffer: the buffer, an offset into it and a length.
  An array made by \<open>new Uint8Array(len)\<close>, as \<open>decodeAudio\<close> makes its result, or by
  \<open>new Uint8Array(buffer)\<close>, as the capture callback makes its frame, spans its whole
  buffer. \<open>new Int16Array(data.buffer)\<close> is a view of the whole buffer under \<open>data\<close>,
  whatever part of that buffer \<open>data\<close> spans; it throws a \<open>RangeError\<close> when the byte
  length of the buffer is odd.
\<close>

record uint8_array =
  array_buffer :: "byte list"
  array_offset :: nat
  array_length :: nat

definition whole_array :: "byte list \<Rightarrow> uint8_array" where
  "whole_array bytes = \<lparr>array_buffer = bytes, array_offset = 0, array_length = length bytes\<rparr>"

definition int16_of_bytes :: "byte \<Rightarrow> byte \<Rightarrow> int16" where
  "int16_of_bytes lo hi = push_bit 8 (ucast hi) OR ucast lo"

fun int16_pairs :: "byte list \<Rightarrow> int16 list" where
  "int16_pairs (lo # hi # r) = int16_of_bytes lo hi # int16_pairs r"
| "int16_pairs [lo] = []"
| "int16_pairs [] = []"

definition Int16Array_of_bytes :: "byte list \<Rightarrow> js_error + int16 list" where
  "Int16Array_of_bytes data =
     (if odd (length data) then Inl RangeError else Inr (int16_pairs data))"

text \<open>
  \<open>ctx.createBuffer(numChannels, length, sampleRate)\<close> is a function of the platform.
  Its \<open>length\<close> parameter is an unsigned long: a fractional argument is truncated. It
  throws a \<open>NotSupportedError\<close> for a channel count or a length of zero, for a channel
  count above the limit of the implementation, and for a sample rate outside the range
  of the implementation. Every implementation has to support 32 channels and the
  rates from 8000 to 96000 Hz, and may support more: an \<open>audio_platform\<close> holds the
  limits that an implementation declares, and the limits in force are never narrower
  than the required ones. The context \<open>ctx\<close> that \<open>decodeAudioData\<close> receives is given
  by the platform it belongs to. The new buffer holds silence. A length beyond the
  range of an unsigned long, and a buffer too large for the memory at hand, are not
  modelled.
\<close>

record audio_platform =
  maxChannels :: nat
  minSampleRate :: nat
  maxSampleRate :: nat

definition channel_limit :: "audio_platform \<Rightarrow> nat" where
  "channel_limit ctx = max 32 (maxChannels ctx)"

definition lowest_rate :: "audio_platform \<Rightarrow> nat" where
  "lowest_rate ctx = min 8000 (minSampleRate ctx)"

definition highest_rate :: "audio_platform \<Rightarrow> nat" where
  "highest_rate ctx = max 96000 (maxSampleRate ctx)"

text \<open>The platform that supports what is required and nothing more.\<close>

definition standard_platform :: audio_platform where
  "standard_platform = \<lparr>maxChannels = 32, minSampleRate = 8000, maxSampleRate = 96000\<rparr>"

record audio_buffer =
  buf_length :: nat
  buf_sampleRate :: nat
  buf_channels :: "sample list list"

definition duration :: "audio_buffer \<Rightarrow> real" where
  "duration b = real (buf_length b) / real (buf_sampleRate b)"

definition createBuffer ::
  "audio_platform \<Rightarrow> nat \<Rightarrow> real \<Rightarrow> nat \<Rightarrow> js_error + audio_buffer" where
  "createBuffer ctx numChannels len sampleRate =
     (if numChannels = 0 \<or> channel_limit ctx < numChannels \<or> nat \<lfloor>len\<rfloor> = 0 \<or>
         sampleRate = 0 \<or> sampleRate < lowest_rate ctx \<or> highest_rate ctx < sampleRate
      then Inl NotSupportedError
      else Inr \<lparr>buf_length = nat \<lfloor>len\<rfloor>, buf_sampleRate = sampleRate,
                buf_channels = replicate numChannels (replicate (nat \<lfloor>len\<rfloor>) (Finite 0))\<rparr>)"

text \<open>
  \<open>dataInt16[k] / 32768.0\<close>: a read past the end of the typed array gives \<open>undefined\<close>,
  and \<open>undefined / 32768.0\<close> is \<open>NaN\<close>.
\<close>

definition sample_at :: "int16 list \<Rightarrow> nat \<Rightarrow> sample" where
  "sample_at dataInt16 k =
     (if k < length dataInt16 then Finite (real_of_int (sint (dataInt16 ! k)) / 32768)
      else NaN)"

text \<open>
  The inner loop runs \<open>i\<close> over the naturals below \<open>frameCount\<close>, which is a quotient and
  need not be whole. A store past the end of \<open>channelData\<close> is ignored by a typed
  array, as \<open>list_update\<close> ignores it.
\<close>

definition fill_channel :: "int16 list \<Rightarrow> nat \<Rightarrow> real \<Rightarrow> nat \<Rightarrow> sample list \<Rightarrow> sample list" where
  "fill_channel dataInt16 numChannels frameCount channel channelData =
     fold (\<lambda>i cd. cd[i := sample_at dataInt16 (i * numChannels + channel)])
          [0..<nat \<lceil>frameCount\<rceil>] channelData"

definition store_channels :: "int16 list \<Rightarrow> nat \<Rightarrow> real \<Rightarrow> audio_buffer \<Rightarrow> audio_buffer" where
  "store_channels dataInt16 numChannels frameCount buffer =
     fold (\<lambda>channel b.
            b\<lparr>buf_channels := (buf_channels b)
                [channel := fill_channel dataInt16 numChannels frameCount channel
                              (buf_channels b ! channel)]\<rparr>)
          [0..<numChannels] buffer"

definition decodeAudioData ::
  "uint8_array \<Rightarrow> audio_platform \<Rightarrow> nat \<Rightarrow> nat \<Rightarrow> js_error + audio_buffer" where
  "decodeAudioData data ctx sampleRate numChannels =
     (case Int16Array_of_bytes (array_buffer data) of
        Inl e \<Rightarrow> Inl e
      | Inr dataInt16 \<Rightarrow>
          (let frameCount = real (length dataInt16) / real numChannels in
           case createBuffer ctx numChannels frameCount sampleRate of
             Inl e \<Rightarrow> Inl e
           | Inr buffer \<Rightarrow> Inr (store_channels dataInt16 numChannels frameCount buffer)))"

section \<open>components/VoiceAgent: state, effects and handlers\<close>

text \<open>
  The component keeps its session in React state (\<open>isConnected\<close>, \<open>isMuted\<close>, \<open>status\<close>)
  and in refs, each \<open>null\<close> or a handle. What the handlers do to the outside world is
  recorded, in order, in \<open>effects\<close>.

  \<^item> \<open>streamRef\<close> holds the microphone stream, given by the number of its tracks;
  \<^item> the two audio-context refs hold the sample rate of their context, and \<open>platform\<close>
    is the audio implementation of the browser, to which both contexts belong;
  \<^item> \<open>processorRef\<close> holds the script processor together with the value of \<open>isMuted\<close>
    that its \<open>onaudioprocess\<close> closure captured;
  \<^item> \<open>sessionRef\<close> is typed \<open>any\<close>; line 190 stores \<open>sessionPromise\<close> in it, the promise
    returned by \<open>liveClient.connect\<close>, not the session it resolves to;
  \<^item> \<open>sourcesRef\<close> is the set of playing buffer sources in insertion order, each source
    named by a fresh number.
\<close>

datatype effect =
    ProcessorDisconnect
  | SourceDisconnect
  | TrackStop nat
  | SessionClose
  | OutputContextClose
  | InputContextClose
  | SendRealtimeInput string string
  | SourceStart nat real real
  | SourceStop nat

datatype promise_state = Pending | Fulfilled | Rejected

datatype js_object = PromiseObject | SessionObject

datatype script_processor = ScriptProcessor (closure_isMuted: bool)

datatype media_source = MediaStreamSource

record va_state =
  isConnected :: bool
  isMuted :: bool
  status :: string
  inputAudioContextRef :: "nat option"
  outputAudioContextRef :: "nat option"
  streamRef :: "nat option"
  processorRef :: "script_processor option"
  sourceRef :: "media_source option"
  nextStartTimeRef :: real
  sessionRef :: "js_object option"
  sourcesRef :: "nat list"
  effect_isMuted :: bool
  sessionPromise :: promise_state
  pendingSends :: "(string \<times> string) list"
  nextSource :: nat
  platform :: audio_platform
  effects :: "effect list"

definition mounted :: va_state where
  "mounted =
     \<lparr>isConnected = False, isMuted = False, status = ''Initializing...'',
      inputAudioContextRef = None, outputAudioContextRef = None, streamRef = None,
      processorRef = None, sourceRef = None, nextStartTimeRef = 0, sessionRef = None,
      sourcesRef = [], effect_isMuted = False, sessionPromise = Pending,
      pendingSends = [], nextSource = 0, platform = standard_platform, effects = []\<rparr>"

definition emit :: "effect list \<Rightarrow> va_state \<Rightarrow> va_state" where
  "emit es s = s\<lparr>effects := effects s @ es\<rparr>"

subsection \<open>cleanup (lines 30-56)\<close>

text \<open>
  Calling \<open>close()\<close> on the object in \<open>sessionRef\<close>: a session has the method; a promise
  has none, so the call is a call of \<open>undefined\<close> and throws a \<open>TypeError\<close>.
\<close>

fun call_close :: "js_object \<Rightarrow> js_error + effect" where
  "call_close SessionObject = Inr SessionClose"
| "call_close PromiseObject = Inl TypeError"

definition cleanup_contexts :: "va_state \<Rightarrow> va_state" where
  "cleanup_contexts s0 =
     (let s1 = (case outputAudioContextRef s0 of
                  None \<Rightarrow> s0
                | Some ctx \<Rightarrow> (emit [OutputContextClose] s0)\<lparr>outputAudioContextRef := None\<rparr>);
          s2 = (case inputAudioContextRef s1 of
                  None \<Rightarrow> s1
                | Some ctx \<Rightarrow> (emit [InputContextClose] s1)\<lparr>inputAudioContextRef := None\<rparr>)
      in s2\<lparr>isConnected := False\<rparr>)"

definition cleanup_capture :: "va_state \<Rightarrow> va_state" where
  "cleanup_capture s0 =
     (let s1 = (case processorRef s0 of
                  None \<Rightarrow> s0
                | Some p \<Rightarrow> (emit [ProcessorDisconnect] s0)\<lparr>processorRef := None\<rparr>);
          s2 = (case sourceRef s1 of
                  None \<Rightarrow> s1
                | Some src \<Rightarrow> (emit [SourceDisconnect] s1)\<lparr>sourceRef := None\<rparr>)
      in (case streamRef s2 of
            None \<Rightarrow> s2
          | Some tracks \<Rightarrow> (emit (map TrackStop [0..<tracks]) s2)\<lparr>streamRef := None\<rparr>))"

text \<open>
  An exception leaves \<open>cleanup\<close> at the statement that throws: the assignments before it
  have happened, the statements after it have not.
\<close>

definition cleanup :: "va_state \<Rightarrow> js_error option \<times> va_state" where
  "cleanup s0 =
     (let s3 = cleanup_capture s0 in
      case sessionRef s3 of
        None \<Rightarrow> (None, cleanup_contexts s3)
      | Some obj \<Rightarrow>
          (case call_close obj of
             Inl e \<Rightarrow> (Some e, s3)
           | Inr eff \<Rightarrow> (None, cleanup_contexts ((emit [eff] s3)\<lparr>sessionRef := None\<rparr>))))"

subsection \<open>The effect body and initSession (lines 58-198)\<close>

text \<open>
  The effect runs when \<open>isOpen\<close> or \<open>contextSummary\<close> changes, not when \<open>isMuted\<close> does
  (the dependency list is \<open>[isOpen, contextSummary]\<close>, with the lint rule for missing
  dependencies disabled). Every closure the effect creates sees the \<open>isMuted\<close> of the
  render that ran the effect: \<open>open_effect\<close> records it in \<open>effect_isMuted\<close>.
  \<open>open_effect\<close> is \<open>initSession\<close> up to its \<open>await\<close>; \<open>getUserMedia_settled\<close> is the
  rest, given the outcome of the permission request (the number of tracks, or the
  exception, which the \<open>catch\<close> turns into a status text). The constructors of the two
  audio contexts are taken to succeed.
\<close>

definition open_effect :: "va_state \<Rightarrow> va_state" where
  "open_effect s = s\<lparr>status := ''Requesting permissions...'', effect_isMuted := isMuted s\<rparr>"

definition getUserMedia_settled :: "js_error + nat \<Rightarrow> va_state \<Rightarrow> va_state" where
  "getUserMedia_settled outcome s =
     (case outcome of
        Inl err \<Rightarrow> s\<lparr>status := ''Failed to connect microphone''\<rparr>
      | Inr stream \<Rightarrow>
          s\<lparr>streamRef := Some stream, status := ''Connecting to Gemini...'',
            inputAudioContextRef := Some 16000, outputAudioContextRef := Some 24000,
            sessionPromise := Pending, pendingSends := [],
            sessionRef := Some PromiseObject\<rparr>)"

definition onopen :: "va_state \<Rightarrow> va_state" where
  "onopen s =
     s\<lparr>isConnected := True, status := ''Listening...'',
       sourceRef := Some MediaStreamSource,
       processorRef := Some (ScriptProcessor (effect_isMuted s))\<rparr>"

definition toggleMute :: "va_state \<Rightarrow> va_state" where
  "toggleMute s = s\<lparr>isMuted := \<not> isMuted s\<rparr>"

subsection \<open>The capture callback (lines 119-139)\<close>

text \<open>
  \<open>sessionPromise.then(callback)\<close>: on a fulfilled promise the callback runs before any
  other event; on a pending one it waits, in registration order, for the fulfilment;
  on a rejected one it never runs.
\<close>

definition promise_then :: "string \<times> string \<Rightarrow> va_state \<Rightarrow> va_state" where
  "promise_then media s =
     (case sessionPromise s of
        Fulfilled \<Rightarrow> emit [SendRealtimeInput (fst media) (snd media)] s
      | Pending \<Rightarrow> s\<lparr>pendingSends := pendingSends s @ [media]\<rparr>
      | Rejected \<Rightarrow> s)"

definition session_fulfilled :: "va_state \<Rightarrow> va_state" where
  "session_fulfilled s =
     (emit (map (\<lambda>media. SendRealtimeInput (fst media) (snd media)) (pendingSends s)) s)
       \<lparr>sessionPromise := Fulfilled, pendingSends := []\<rparr>"

definition onaudioprocess :: "script_processor \<Rightarrow> real list \<Rightarrow> va_state \<Rightarrow> va_state" where
  "onaudioprocess p inputData s =
     (if closure_isMuted p then s
      else promise_then (''audio/pcm;rate=16000'', encodeAudio (samplesToFrame inputData)) s)"

text \<open>The platform hands a block to the handler of the processor that is connected.\<close>

definition capture_tick :: "real list \<Rightarrow> va_state \<Rightarrow> va_state" where
  "capture_tick inputData s =
     (case processorRef s of None \<Rightarrow> s | Some p \<Rightarrow> onaudioprocess p inputData s)"

fun capture_ticks :: "real list list \<Rightarrow> va_state \<Rightarrow> va_state" where
  "capture_ticks [] s = s"
| "capture_ticks (block # blocks) s = capture_ticks blocks (capture_tick block s)"

subsection \<open>The message handler (lines 144-178)\<close>

text \<open>
  A server message carries an optional base64 audio payload and the \<open>interrupted\<close> flag.
  \<open>currentTime\<close> is the reading of the output context's clock when the handler runs.
  The handler is one step: its only \<open>await\<close> is on a function without an \<open>await\<close> of its
  own, so no other event runs in between. An exception rejects the handler's promise
  and keeps the assignments made before it.
\<close>

record server_message =
  inlineData :: "string option"
  interrupted :: bool

definition start_source :: "audio_buffer \<Rightarrow> va_state \<Rightarrow> va_state" where
  "start_source audioBuffer s =
     (emit [SourceStart (nextSource s) (nextStartTimeRef s) (duration audioBuffer)] s)
       \<lparr>nextStartTimeRef := nextStartTimeRef s + duration audioBuffer,
        sourcesRef := sourcesRef s @ [nextSource s],
        nextSource := Suc (nextSource s)\<rparr>"

definition interrupted_part :: "server_message \<Rightarrow> va_state \<Rightarrow> va_state" where
  "interrupted_part message s =
     (if interrupted message then
        (emit (map SourceStop (sourcesRef s)) s)\<lparr>sourcesRef := [], nextStartTimeRef := 0\<rparr>
      else s)"

definition onmessage :: "real \<Rightarrow> server_message \<Rightarrow> va_state \<Rightarrow> js_error option \<times> va_state" where
  "onmessage currentTime message s =
     (case inlineData message of
        None \<Rightarrow> (None, interrupted_part message s)
      | Some base64Audio \<Rightarrow>
          if base64Audio = [] then (None, interrupted_part message s)
          else
            (case outputAudioContextRef s of
               None \<Rightarrow> (None, s)
             | Some ctx \<Rightarrow>
                 (let s1 = s\<lparr>nextStartTimeRef := max (nextStartTimeRef s) currentTime\<rparr> in
                  case decodeAudio base64Audio of
                    Inl e \<Rightarrow> (Some e, s1)
                  | Inr data \<Rightarrow>
                      (case decodeAudioData (whole_array data) (platform s) 24000 1 of
                         Inl e \<Rightarrow> (Some e, s1)
                       | Inr audioBuffer \<Rightarrow>
                           (None, interrupted_part message (start_source audioBuffer s1))))))"

text \<open>The \<open>ended\<close> listener of a source removes it from the set.\<close>

definition source_ended :: "nat \<Rightarrow> va_state \<Rightarrow> va_state" where
  "source_ended src s = s\<lparr>sourcesRef := removeAll src (sourcesRef s)\<rparr>"

datatype playback_event = Inbound real server_message | Ended nat

fun playback_step :: "playback_event \<Rightarrow> va_state \<Rightarrow> va_state" where
  "playback_step (Inbound currentTime message) s = snd (onmessage currentTime message s)"
| "playback_step (Ended src) s = source_ended src s"

fun playback_run :: "playback_event list \<Rightarrow> va_state \<Rightarrow> va_state" where
  "playback_run [] s = s"
| "playback_run (ev # evs) s = playback_run evs (playback_step ev s)"

fun interrupts :: "playback_event \<Rightarrow> bool" where
  "interrupts (Inbound currentTime message) = interrupted message"
| "interrupts (Ended src) = False"

text \<open>The play intervals of the sources started in a list of effects: start and length.\<close>

fun started :: "effect list \<Rightarrow> (real \<times> real) list" where
  "started [] = []"
| "started (SourceStart src start len # es) = (start, len) # started es"
| "started (e # es) = started es"

definition before :: "real \<times> real \<Rightarrow> real \<times> real \<Rightarrow> bool" where
  "before a b = (fst a + snd a \<le> fst b)"

definition scheduled :: "playback_event list \<Rightarrow> va_state \<Rightarrow> (real \<times> real) list" where
  "scheduled evs s = started (drop (length (effects s)) (effects (playback_run evs s)))"

section \<open>Notions used to state the properties\<close>

text \<open>
  The six-bit groups of a byte sequence and the padding that follows them: the two
  parts of the text that \<open>btoa_groups\<close> produces.
\<close>

fun sextets :: "nat list \<Rightarrow> nat list" where
  "sextets (a # b # c # r) =
     [a div 4, (a mod 4) * 16 + b div 16, (b mod 16) * 4 + c div 64, c mod 64] @ sextets r"
| "sextets [a, b] = [a div 4, (a mod 4) * 16 + b div 16, (b mod 16) * 4]"
| "sextets [a] = [a div 4, (a mod 4) * 16]"
| "sextets [] = []"

definition padding :: "nat list \<Rightarrow> string" where
  "padding bs = replicate ((3 - length bs mod 3) mod 3) (CHR ''='')"

text \<open>
  A decoded buffer recovers the interleaved samples \<open>s\<close> on \<open>c\<close> channels: it has
  \<open>length s div c\<close> frames on each of \<open>c\<close> channels, and frame \<open>i\<close> of channel \<open>ch\<close> is a
  number within \<open>1/32768\<close> of sample \<open>i * c + ch\<close>.
\<close>

definition recovered :: "real list \<Rightarrow> nat \<Rightarrow> audio_buffer \<Rightarrow> bool" where
  "recovered s c buffer \<longleftrightarrow>
     buf_length buffer = length s div c \<and> length (buf_channels buffer) = c \<and>
     (\<forall>ch < c. length (buf_channels buffer ! ch) = length s div c \<and>
        (\<forall>i < length s div c.
           \<exists>r. buf_channels buffer ! ch ! i = Finite r \<and> \<bar>r - s ! (i * c + ch)\<bar> \<le> 1 / 32768))"

text \<open>
  The audio a message carries, as the handler sees it: nothing when the payload is
  missing or empty, otherwise the outcome of \<open>decodeAudio\<close> followed by
  \<open>decodeAudioData\<close> at 24000 Hz on one channel. Rate and channel count lie inside
  what every platform supports, so the outcome is the same on all of them; it is
  taken on the standard one.
\<close>

definition audio_of :: "server_message \<Rightarrow> (js_error + audio_buffer) option" where
  "audio_of message =
     (case inlineData message of
        None \<Rightarrow> None
      | Some base64Audio \<Rightarrow>
          if base64Audio = [] then None
          else Some (case decodeAudio base64Audio of
                       Inl e \<Rightarrow> Inl e
                     | Inr data \<Rightarrow>
                         decodeAudioData (whole_array data) standard_platform 24000 1))"

text \<open>
  A tenth of a second of silence as the server would send it (2400 samples at 24000 Hz),
  and a state with an open output context whose cursor is at \<open>7\<close> seconds.
\<close>

definition silence :: server_message where
  "silence = \<lparr>inlineData = Some (encodeAudio (samplesToFrame (replicate 2400 0))),
              interrupted = False\<rparr>"

definition listening :: va_state where
  "listening = mounted\<lparr>outputAudioContextRef := Some 24000, nextStartTimeRef := 7\<rparr>"

text \<open>
  A message that carries only the interruption flag, and the state reached from
  \<open>listening\<close> once one frame of silence has been scheduled at clock reading \<open>7\<close>.
\<close>

definition barge_in :: server_message where
  "barge_in = \<lparr>inlineData = None, interrupted = True\<rparr>"

definition playing :: va_state where
  "playing = snd (onmessage 7 silence listening)"

text \<open>
  The states of an activation: \<open>connecting\<close> after the microphone (one track) has been
  granted and \<open>liveClient.connect\<close> has been called, \<open>activated\<close> after \<open>onopen\<close>, and
  \<open>streaming\<close> once the session promise is fulfilled.
\<close>

definition connecting :: va_state where
  "connecting = getUserMedia_settled (Inr 1) (open_effect mounted)"

definition activated :: va_state where
  "activated = onopen connecting"

definition streaming :: va_state where
  "streaming = session_fulfilled activated"

text \<open>
  A session in which one frame of silence has been scheduled at clock reading \<open>7\<close>, and
  the state left by a teardown that runs while the session is still connecting.
\<close>

definition playing_session :: va_state where
  "playing_session = snd (onmessage 7 silence streaming)"

definition closed_early :: va_state where
  "closed_early = snd (cleanup connecting)"

text \<open>A session that was opened, and whose promise was fulfilled, while \<open>isMuted\<close> was set.\<close>

definition opened_muted :: va_state where
  "opened_muted =
     session_fulfilled (onopen (getUserMedia_settled (Inr 1) (open_effect (toggleMute mounted))))"

section \<open>services/gemini: generateArxivPapers\<close>

text \<open>
  The value that \<open>JSON.parse\<close> returns is a JSON value; the cast \<open>as Paper[]\<close> checks
  nothing at run time. Numbers and strings are kept as the text that stands for them
  (digits and sign; the characters between the quotes, escapes undecoded).
\<close>

datatype json =
    JNull
  | JBool bool
  | JNumber string
  | JString string
  | JArray "json list"
  | JObject "(string \<times> json) list"

subsection \<open>String operations of the function body\<close>

text \<open>
  \<open>text.replace(/pat/g, '')\<close> for a literal pattern removes its occurrences from left to
  right; \<open>indexOf\<close> and \<open>lastIndexOf\<close> give \<open>None\<close> for \<open>-1\<close>; \<open>substring\<close> swaps its
  arguments when the first is larger and stops at the end of the text.
\<close>

function remove_all :: "string \<Rightarrow> string \<Rightarrow> string" where
  "remove_all pat [] = []"
| "remove_all pat (c # cs) =
     (if pat \<noteq> [] \<and> take (length pat) (c # cs) = pat
      then remove_all pat (drop (length pat) (c # cs))
      else c # remove_all pat cs)"
  by pat_completeness auto
termination
  by (relation "measure (\<lambda>(pat, s). length s)") auto

fun indexOf :: "char \<Rightarrow> string \<Rightarrow> nat option" where
  "indexOf c [] = None"
| "indexOf c (x # xs) = (if x = c then Some 0 else map_option Suc (indexOf c xs))"

definition lastIndexOf :: "char \<Rightarrow> string \<Rightarrow> nat option" where
  "lastIndexOf c s = map_option (\<lambda>i. length s - 1 - i) (indexOf c (rev s))"

definition substring :: "nat \<Rightarrow> nat \<Rightarrow> string \<Rightarrow> string" where
  "substring a b s = take (max a b - min a b) (drop (min a b) s)"

definition response_text :: "string option \<Rightarrow> string" where
  "response_text t = (case t of None \<Rightarrow> ''[]'' | Some str \<Rightarrow> if str = [] then ''[]'' else str)"

definition strip_fences :: "string \<Rightarrow> string" where
  "strip_fences s = remove_all ''```'' (remove_all ''```json'' s)"

definition json_slice :: "string \<Rightarrow> string" where
  "json_slice s =
     (case (indexOf (CHR ''['') s, lastIndexOf (CHR '']'') s) of
        (Some start, Some end) \<Rightarrow> substring start (end + 1) s
      | _ \<Rightarrow> s)"

subsection \<open>The function\<close>

text \<open>
  \<open>JSON.parse\<close> and the generative service are outside the repository: they are the
  parameters \<open>parse\<close> (the value, or the \<open>SyntaxError\<close>) and \<open>service\<close> (from the topic and
  the count, which reach it through the prompt, to the \<open>text\<close> of the response, possibly
  undefined, or the exception of the request). Everything from the request to the last
  \<open>return\<close> is inside \<open>try\<close>; the \<open>catch\<close> returns the empty array.
\<close>

definition generateArxivPapers_with ::
  "(string \<Rightarrow> js_error + json) \<Rightarrow> (string \<Rightarrow> int \<Rightarrow> js_error + string option) \<Rightarrow>
   string \<Rightarrow> int \<Rightarrow> js_error + json" where
  "generateArxivPapers_with parse service topic count =
     (case service topic count of
        Inl error \<Rightarrow> Inr (JArray [])
      | Inr t \<Rightarrow>
          (case parse (json_slice (strip_fences (response_text t))) of
             Inl error \<Rightarrow> Inr (JArray [])
           | Inr papers \<Rightarrow> Inr papers))"

subsection \<open>A parser for JSON texts\<close>

text \<open>
  \<open>JSON_parse\<close> follows the JSON grammar: white space, the three literals, numbers,
  strings with their escapes, arrays and objects, and nothing but white space after
  the value. The fuel bounds the number of nested and successive values; twice the
  length of the text is more than any text needs.
\<close>

definition is_ws :: "char \<Rightarrow> bool" where
  "is_ws c = ((of_char c :: nat) \<in> {32, 9, 10, 13})"

definition skip_ws :: "string \<Rightarrow> string" where
  "skip_ws s = dropWhile is_ws s"

definition is_digit :: "char \<Rightarrow> bool" where
  "is_digit c = (48 \<le> (of_char c :: nat) \<and> (of_char c :: nat) \<le> 57)"

definition is_hex :: "char \<Rightarrow> bool" where
  "is_hex c = (is_digit c \<or> (65 \<le> (of_char c :: nat) \<and> (of_char c :: nat) \<le> 70)
                \<or> (97 \<le> (of_char c :: nat) \<and> (of_char c :: nat) \<le> 102))"

definition digits :: "string \<Rightarrow> (string \<times> string) option" where
  "digits s = (if takeWhile is_digit s = [] then None
               else Some (takeWhile is_digit s, dropWhile is_digit s))"

definition int_part :: "string \<Rightarrow> (string \<times> string) option" where
  "int_part s =
     (case s of
        [] \<Rightarrow> None
      | c # r \<Rightarrow> if c = CHR ''0'' then Some ([c], r) else digits s)"

definition frac_part :: "string \<Rightarrow> (string \<times> string) option" where
  "frac_part s =
     (case s of
        c # r \<Rightarrow>
          if c = CHR ''.'' then map_option (\<lambda>(d, rest). (c # d, rest)) (digits r)
          else Some ([], s)
      | [] \<Rightarrow> Some ([], s))"

definition exp_part :: "string \<Rightarrow> (string \<times> string) option" where
  "exp_part s =
     (case s of
        c # r \<Rightarrow>
          if c = CHR ''e'' \<or> c = CHR ''E'' then
            (case r of
               sg # r' \<Rightarrow>
                 if sg = CHR ''+'' \<or> sg = CHR ''-''
                 then map_option (\<lambda>(d, rest). (c # sg # d, rest)) (digits r')
                 else map_option (\<lambda>(d, rest). (c # d, rest)) (digits r)
             | [] \<Rightarrow> None)
          else Some ([], s)
      | [] \<Rightarrow> Some ([], s))"

definition number :: "string \<Rightarrow> (string \<times> string) option" where
  "number s =
     (let (sign, s1) = (case s of c # r \<Rightarrow> if c = CHR ''-'' then ([c], r) else ([], s)
                                | [] \<Rightarrow> ([], s)) in
      case int_part s1 of
        None \<Rightarrow> None
      | Some (i, s2) \<Rightarrow>
          (case frac_part s2 of
             None \<Rightarrow> None
           | Some (f, s3) \<Rightarrow>
               (case exp_part s3 of
                  None \<Rightarrow> None
                | Some (e, s4) \<Rightarrow> Some (sign @ i @ f @ e, s4))))"

function string_body :: "string \<Rightarrow> (string \<times> string) option" where
  "string_body [] = None"
| "string_body (c # cs) =
     (if c = CHR 0x22 then Some ([], cs)
      else if c = CHR 0x5C then
        (case cs of
           [] \<Rightarrow> None
         | e # r \<Rightarrow>
             if e \<in> set [CHR 0x22, CHR 0x5C, CHR ''/'', CHR ''b'', CHR ''f'', CHR ''n'',
                          CHR ''r'', CHR ''t'']
             then map_option (\<lambda>(b, rest). (c # e # b, rest)) (string_body r)
             else if e = CHR ''u'' \<and> 4 \<le> length r \<and> list_all is_hex (take 4 r)
             then map_option (\<lambda>(b, rest). (c # e # take 4 r @ b, rest)) (string_body (drop 4 r))
             else None)
      else if (of_char c :: nat) < 32 then None
      else map_option (\<lambda>(b, rest). (c # b, rest)) (string_body cs))"
  by pat_completeness auto
termination
  by (relation "measure length") auto

fun parse_value :: "nat \<Rightarrow> string \<Rightarrow> (json \<times> string) option"
  and parse_elements :: "nat \<Rightarrow> string \<Rightarrow> (json list \<times> string) option"
  and parse_members :: "nat \<Rightarrow> string \<Rightarrow> ((string \<times> json) list \<times> string) option" where
  "parse_value 0 s = None"
| "parse_value (Suc n) s =
     (case skip_ws s of
        [] \<Rightarrow> None
      | c # r \<Rightarrow>
          if c = CHR ''['' then
            (case skip_ws r of
               [] \<Rightarrow> None
             | d # r' \<Rightarrow>
                 if d = CHR '']'' then Some (JArray [], r')
                 else map_option (\<lambda>(vs, rest). (JArray vs, rest)) (parse_elements n r))
          else if c = CHR ''{'' then
            (case skip_ws r of
               [] \<Rightarrow> None
             | d # r' \<Rightarrow>
                 if d = CHR ''}'' then Some (JObject [], r')
                 else map_option (\<lambda>(ms, rest). (JObject ms, rest)) (parse_members n r))
          else if c = CHR 0x22 then map_option (\<lambda>(b, rest). (JString b, rest)) (string_body r)
          else if take 4 (c # r) = ''null'' then Some (JNull, drop 4 (c # r))
          else if take 4 (c # r) = ''true'' then Some (JBool True, drop 4 (c # r))
          else if take 5 (c # r) = ''false'' then Some (JBool False, drop 5 (c # r))
          else map_option (\<lambda>(lexeme, rest). (JNumber lexeme, rest)) (number (c # r)))"
| "parse_elements 0 s = None"
| "parse_elements (Suc n) s =
     (case parse_value n s of
        None \<Rightarrow> None
      | Some (v, r) \<Rightarrow>
          (case skip_ws r of
             [] \<Rightarrow> None
           | c # r' \<Rightarrow>
               if c = CHR '','' then
                 map_option (\<lambda>(vs, rest). (v # vs, rest)) (parse_elements n r')
               else if c = CHR '']'' then Some ([v], r')
               else None))"
| "parse_members 0 s = None"
| "parse_members (Suc n) s =
     (case skip_ws s of
        [] \<Rightarrow> None
      | q # r \<Rightarrow>
          if q \<noteq> CHR 0x22 then None
          else
            (case string_body r of
               None \<Rightarrow> None
             | Some (key, r1) \<Rightarrow>
                 (case skip_ws r1 of
                    [] \<Rightarrow> None
                  | colon # r2 \<Rightarrow>
                      if colon \<noteq> CHR '':'' then None
                      else
                        (case parse_value n r2 of
                           None \<Rightarrow> None
                         | Some (v, r3) \<Rightarrow>
                             (case skip_ws r3 of
                                [] \<Rightarrow> None
                              | c # r4 \<Rightarrow>
                                  if c = CHR '','' then
                                    map_option (\<lambda>(ms, rest). ((key, v) # ms, rest))
                                      (parse_members n r4)
                                  else if c = CHR ''}'' then Some ([(key, v)], r4)
                                  else None)))))"

definition JSON_parse :: "string \<Rightarrow> js_error + json" where
  "JSON_parse s =
     (case parse_value (2 * length s + 2) s of
        None \<Rightarrow> Inl SyntaxError
      | Some (v, rest) \<Rightarrow> if skip_ws rest = [] then Inr v else Inl SyntaxError)"

definition generateArxivPapers ::
  "(string \<Rightarrow> int \<Rightarrow> js_error + string option) \<Rightarrow> string \<Rightarrow> int \<Rightarrow> js_error + json" where
  "generateArxivPapers service topic count =
     generateArxivPapers_with JSON_parse service topic count"

text \<open>
  A paper record as \<open>types.ts\<close> declares it: an object whose \<open>title\<close>, \<open>year\<close>, \<open>summary\<close>
  and \<open>link\<close> are strings and whose \<open>authors\<close> and \<open>highlights\<close> are arrays of
  strings. In an object with a repeated key the last entry counts.
\<close>

fun is_string :: "json \<Rightarrow> bool" where
  "is_string (JString s) = True"
| "is_string v = False"

fun is_string_array :: "json \<Rightarrow> bool" where
  "is_string_array (JArray vs) = list_all is_string vs"
| "is_string_array v = False"

definition has_field :: "(string \<times> json) list \<Rightarrow> string \<Rightarrow> (json \<Rightarrow> bool) \<Rightarrow> bool" where
  "has_field entries key ok =
     (case map_of (rev entries) key of None \<Rightarrow> False | Some v \<Rightarrow> ok v)"

fun is_paper :: "json \<Rightarrow> bool" where
  "is_paper (JObject entries) =
     (has_field entries ''title'' is_string \<and> has_field entries ''authors'' is_string_array \<and>
      has_field entries ''year'' is_string \<and> has_field entries ''summary'' is_string \<and>
      has_field entries ''highlights'' is_string_array \<and> has_field entries ''link'' is_string)"
| "is_paper v = False"

fun is_paper_list :: "json \<Rightarrow> bool" where
  "is_paper_list (JArray vs) = list_all is_paper vs"
| "is_paper_list v = False"

text \<open>Two services: one whose request fails, one that answers with a fixed text.\<close>

definition failing_service :: "string \<Rightarrow> int \<Rightarrow> js_error + string option" where
  "failing_service topic count = Inl ServiceError"

definition answering :: "string \<Rightarrow> string \<Rightarrow> int \<Rightarrow> js_error + string option" where
  "answering reply topic count = Inr (Some reply)"

text \<open>
  A reply in which the only record has a title and a numeric year:
  \<^verbatim>\<open>[{"title":"A","year":2024}]\<close>.
\<close>

definition numeric_year_reply :: string where
  "numeric_year_reply =
     ''[{'' @ [CHR 0x22] @ ''title'' @ [CHR 0x22] @ '':'' @ [CHR 0x22] @ ''A'' @ [CHR 0x22]
       @ '','' @ [CHR 0x22] @ ''year'' @ [CHR 0x22] @ '':2024}]''"

text \<open>An empty list inside a code fence, on lines of its own.\<close>

definition fenced_reply :: string where
  "fenced_reply = ''```json'' @ [CHR 0x0A] @ ''[]'' @ [CHR 0x0A] @ ''```''"

section \<open>Properties of the PCM frame codec\<close>

subsection \<open>Byte views and the loops of decodeAudioData\<close>

lemma int16_of_bytes_split: "int16_of_bytes (ucast w) (ucast (drop_bit 8 w)) = w"
  unfolding int16_of_bytes_def
  by (rule bit_word_eqI) (auto simp add: bit_simps)

lemma int16_pairs_view: "int16_pairs (Uint8Array_of_Int16 ws) = ws"
  by (induction ws) (simp_all add: Uint8Array_of_Int16_def int16_bytes_def int16_of_bytes_split)

lemma length_view: "length (Uint8Array_of_Int16 ws) = 2 * length ws"
  by (induction ws) (simp_all add: Uint8Array_of_Int16_def int16_bytes_def)

lemma Int16Array_of_view: "Int16Array_of_bytes (Uint8Array_of_Int16 ws) = Inr ws"
  by (simp add: Int16Array_of_bytes_def length_view int16_pairs_view)

lemma length_int16_pairs: "length (int16_pairs bs) = length bs div 2"
  by (induction bs rule: int16_pairs.induct) simp_all

lemma fold_store_length:
  "length (fold (\<lambda>i cd. cd[i := f i]) is cd) = length cd"
  by (induction "is" arbitrary: cd) simp_all

lemma fold_store_nth:
  "j < length cd \<Longrightarrow>
   fold (\<lambda>i cd. cd[i := f i]) [0..<m] cd ! j = (if j < m then f j else cd ! j)"
proof (induction m)
  case 0
  then show ?case by simp
next
  case (Suc m)
  then show ?case
    by (auto simp add: fold_store_length nth_list_update less_Suc_eq)
qed

lemma fill_channel_length:
  "length (fill_channel d c fc ch cd) = length cd"
  by (simp add: fill_channel_def fold_store_length)

lemma fill_channel_nth:
  "j < length cd \<Longrightarrow> j < nat \<lceil>fc\<rceil> \<Longrightarrow>
   fill_channel d c fc ch cd ! j = sample_at d (j * c + ch)"
  by (simp add: fill_channel_def fold_store_nth)

lemma fold_channels_fields:
  "buf_length (fold (\<lambda>channel b. b\<lparr>buf_channels := (buf_channels b)[channel := F channel (buf_channels b ! channel)]\<rparr>) cs buffer) = buf_length buffer"
  "buf_sampleRate (fold (\<lambda>channel b. b\<lparr>buf_channels := (buf_channels b)[channel := F channel (buf_channels b ! channel)]\<rparr>) cs buffer) = buf_sampleRate buffer"
  "length (buf_channels (fold (\<lambda>channel b. b\<lparr>buf_channels := (buf_channels b)[channel := F channel (buf_channels b ! channel)]\<rparr>) cs buffer)) = length (buf_channels buffer)"
  by (induction cs arbitrary: buffer) simp_all

lemma fold_channels_nth:
  "ch < length (buf_channels buffer) \<Longrightarrow>
   buf_channels (fold (\<lambda>channel b. b\<lparr>buf_channels := (buf_channels b)[channel := F channel (buf_channels b ! channel)]\<rparr>) [0..<n] buffer) ! ch
     = (if ch < n then F ch (buf_channels buffer ! ch) else buf_channels buffer ! ch)"
proof (induction n)
  case 0
  then show ?case by simp
next
  case (Suc n)
  then show ?case
    by (auto simp add: fold_channels_fields nth_list_update less_Suc_eq)
qed

lemma sint_ToInt16:
  assumes "-1 \<le> x" "x < 1"
  shows "sint (ToInt16 (x * 32768)) = js_truncate (x * 32768)"
proof -
  have "- 32768 \<le> js_truncate (x * 32768)" "js_truncate (x * 32768) < 32768"
    using assms by (auto simp add: js_truncate_def)
  then show ?thesis by (simp add: ToInt16_def int_word_sint)
qed

lemma js_truncate_close: "\<bar>real_of_int (js_truncate y) - y\<bar> < 1"
  by (simp add: js_truncate_def) linarith

lemma quantisation:
  assumes "-1 \<le> x" "x < 1"
  shows "\<bar>real_of_int (sint (ToInt16 (x * 32768))) / 32768 - x\<bar> \<le> 1 / 32768"
proof -
  have "\<bar>real_of_int (js_truncate (x * 32768)) - x * 32768\<bar> < 1"
    by (rule js_truncate_close)
  then have "\<bar>real_of_int (js_truncate (x * 32768)) / 32768 - x\<bar> < 1 / 32768"
    by (simp add: field_simps abs_less_iff)
  then show ?thesis by (simp add: sint_ToInt16 [OF assms])
qed


lemma store_channels_fields:
  "buf_length (store_channels d c fc buffer) = buf_length buffer"
  "buf_sampleRate (store_channels d c fc buffer) = buf_sampleRate buffer"
  "length (buf_channels (store_channels d c fc buffer)) = length (buf_channels buffer)"
  by (simp_all add: store_channels_def fold_channels_fields)

lemma store_channels_nth:
  "ch < length (buf_channels buffer) \<Longrightarrow> ch < c \<Longrightarrow>
   buf_channels (store_channels d c fc buffer) ! ch = fill_channel d c fc ch (buf_channels buffer ! ch)"
  by (simp add: store_channels_def fold_channels_nth)


lemma createBuffer_supported:
  assumes "0 < c" "c \<le> 32" "0 < n" "8000 \<le> sampleRate" "sampleRate \<le> 96000"
  shows "createBuffer ctx c (real n) sampleRate =
           Inr \<lparr>buf_length = n, buf_sampleRate = sampleRate,
                buf_channels = replicate c (replicate n (Finite 0))\<rparr>"
  using assms
  by (simp add: createBuffer_def channel_limit_def lowest_rate_def highest_rate_def)

lemma createBuffer_any_platform:
  assumes "c \<le> 32" "8000 \<le> sampleRate" "sampleRate \<le> 96000"
  shows "createBuffer ctx c len sampleRate = createBuffer ctx' c len sampleRate"
  using assms
  by (simp add: createBuffer_def channel_limit_def lowest_rate_def highest_rate_def)

lemma decodeAudioData_any_platform:
  assumes "c \<le> 32" "8000 \<le> sampleRate" "sampleRate \<le> 96000"
  shows "decodeAudioData data ctx sampleRate c = decodeAudioData data ctx' sampleRate c"
  by (simp add: decodeAudioData_def Let_def createBuffer_any_platform [OF assms, of ctx _ ctx']
      split: sum.splits)

lemma decode_playback_rate:
  "decodeAudioData data ctx 24000 (Suc 0) = decodeAudioData data standard_platform 24000 (Suc 0)"
  by (rule decodeAudioData_any_platform) simp_all

lemma decode_frame:
  assumes ne: "s \<noteq> []"
    and range: "\<forall>x\<in>set s. - 1 \<le> x \<and> x < 1"
    and c: "0 < c" and c32: "c \<le> 32" and dvd: "c dvd length s"
    and lo: "8000 \<le> sampleRate" and hi: "sampleRate \<le> 96000"
  shows "\<exists>buffer. decodeAudioData (whole_array (samplesToFrame s)) ctx sampleRate c = Inr buffer \<and>
           recovered s c buffer"
proof -
  let ?d = "samplesToInt16 s"
  let ?n = "length s div c"
  let ?fc = "real (length ?d) / real c"
  have len: "length ?d = length s" by (simp add: samplesToInt16_def)
  from dvd obtain k where k: "length s = c * k" by (auto simp add: dvd_def)
  with c have n: "?n = k" by simp
  have fc: "?fc = real ?n" using c k n by (simp add: len)
  have npos: "0 < ?n" using ne c k n by (cases k) auto
  let ?b0 = "\<lparr>buf_length = ?n, buf_sampleRate = sampleRate,
              buf_channels = replicate c (replicate ?n (Finite 0))\<rparr>"
  have cb: "createBuffer ctx c ?fc sampleRate = Inr ?b0"
    unfolding fc by (rule createBuffer_supported [OF c c32 npos lo hi])
  let ?buf = "store_channels ?d c ?fc ?b0"
  have dec: "decodeAudioData (whole_array (samplesToFrame s)) ctx sampleRate c = Inr ?buf"
    by (simp add: decodeAudioData_def whole_array_def samplesToFrame_def Int16Array_of_view cb
        Let_def del: of_nat_div)
  have chan: "buf_channels ?buf ! ch = fill_channel ?d c ?fc ch (replicate ?n (Finite 0))"
    if "ch < c" for ch
    using that by (simp add: store_channels_nth del: of_nat_div)
  have rec: "recovered s c ?buf"
    unfolding recovered_def
  proof (intro conjI allI impI)
    show "buf_length ?buf = ?n" by (simp add: store_channels_fields)
    show "length (buf_channels ?buf) = c" by (simp add: store_channels_fields)
  next
    fix ch assume ch: "ch < c"
    show "length (buf_channels ?buf ! ch) = ?n"
      by (simp add: chan [OF ch] fill_channel_length)
  next
    fix ch i assume ch: "ch < c" and i: "i < ?n"
    have idx: "i * c + ch < length s"
    proof -
      have "i * c + ch < i * c + c" using ch by simp
      also have "\<dots> = Suc i * c" by simp
      also have "\<dots> \<le> k * c" using i n by (intro mult_le_mono1) simp
      finally show ?thesis using k by (simp add: mult.commute)
    qed
    have i': "i < nat \<lceil>?fc\<rceil>" using i by (simp add: fc del: of_nat_div)
    have val: "buf_channels ?buf ! ch ! i = sample_at ?d (i * c + ch)"
      using i i' by (simp add: chan [OF ch] fill_channel_nth del: of_nat_div)
    have x: "- 1 \<le> s ! (i * c + ch) \<and> s ! (i * c + ch) < 1"
      using range idx by simp
    have sa: "sample_at ?d (i * c + ch)
            = Finite (real_of_int (sint (ToInt16 (s ! (i * c + ch) * 32768))) / 32768)"
      using idx by (simp add: sample_at_def samplesToInt16_def)
    have q: "\<bar>real_of_int (sint (ToInt16 (s ! (i * c + ch) * 32768))) / 32768
                   - s ! (i * c + ch)\<bar> \<le> 1 / 32768"
      using x by (intro quantisation) simp_all
    show "\<exists>r. buf_channels ?buf ! ch ! i = Finite r \<and>
                       \<bar>r - s ! (i * c + ch)\<bar> \<le> 1 / 32768"
      unfolding val sa using q by blast
  qed
  from dec rec show ?thesis by blast
qed

lemma odd_fails:
  "odd (length (array_buffer data)) \<Longrightarrow>
   decodeAudioData data ctx sampleRate numChannels = Inl RangeError"
  by (simp add: decodeAudioData_def Int16Array_of_bytes_def)

lemma even_truncates:
  assumes "even (length bytes)" "0 < numChannels" "numChannels \<le> 32"
    "numChannels \<le> length bytes div 2"
  shows "\<exists>buffer. decodeAudioData (whole_array bytes) ctx 24000 numChannels = Inr buffer \<and>
           buf_length buffer = length bytes div 2 div numChannels"
proof -
  let ?n = "length bytes div 2"
  have fl': "nat \<lfloor>real ?n / real numChannels\<rfloor> = ?n div numChannels"
    by (simp add: floor_divide_of_nat_eq del: of_nat_div)
  have pos: "0 < ?n div numChannels"
    using assms by (simp add: div_greater_zero_iff)
  show ?thesis
    using assms pos
    by (simp add: decodeAudioData_def whole_array_def Int16Array_of_bytes_def length_int16_pairs
        createBuffer_def channel_limit_def lowest_rate_def highest_rate_def
        fl' store_channels_fields(1) Let_def del: of_nat_div)
qed

lemma decode_full_scale:
  "decodeAudioData (whole_array (samplesToFrame [1])) standard_platform 24000 1 =
     Inr \<lparr>buf_length = 1, buf_sampleRate = 24000, buf_channels = [[Finite (- 1)]]\<rparr>"
  by (simp add: decodeAudioData_def whole_array_def samplesToFrame_def Uint8Array_of_Int16_def
      int16_bytes_def samplesToInt16_def ToInt16_def js_truncate_def Int16Array_of_bytes_def
      int16_of_bytes_def createBuffer_def channel_limit_def lowest_rate_def highest_rate_def
      standard_platform_def store_channels_def fill_channel_def sample_at_def)

lemma decode_no_samples:
  "decodeAudioData (whole_array (samplesToFrame [])) standard_platform 24000 1
     = Inl NotSupportedError"
  by (simp add: decodeAudioData_def whole_array_def samplesToFrame_def Uint8Array_of_Int16_def
      samplesToInt16_def Int16Array_of_bytes_def createBuffer_def)

lemma decode_too_many_channels:
  "decodeAudioData (whole_array (samplesToFrame (replicate 33 0))) standard_platform 24000 33
     = Inl NotSupportedError"
  by (simp add: decodeAudioData_def whole_array_def samplesToFrame_def Int16Array_of_view
      createBuffer_def channel_limit_def standard_platform_def)

lemma decode_three_samples_two_channels:
  "decodeAudioData (whole_array [1, 0, 2, 0, 3, 0]) standard_platform 24000 2 =
     Inr \<lparr>buf_length = 1, buf_sampleRate = 24000,
          buf_channels = [[Finite (1 / 32768)], [Finite (1 / 16384)]]\<rparr>"
proof -
  have upt: "[0..<2] = [0, Suc 0]" by (simp add: upt_conv_Cons)
  have view: "Int16Array_of_bytes [1, 0, 2, 0, 3, 0] = Inr [1, 2, 3]"
    by (simp add: Int16Array_of_bytes_def int16_of_bytes_def)
  have buf: "createBuffer standard_platform 2 (3 / 2) 24000 =
      Inr \<lparr>buf_length = Suc 0, buf_sampleRate = 24000,
           buf_channels = [[Finite 0], [Finite 0]]\<rparr>"
    by (simp add: createBuffer_def channel_limit_def lowest_rate_def highest_rate_def
        standard_platform_def numeral_2_eq_2)
  have ch0: "fill_channel [1, 2, 3] 2 (3 / 2) 0 [Finite 0] = [Finite (1 / 32768)]"
    by (simp add: fill_channel_def upt sample_at_def)
  have ch1: "fill_channel [1, 2, 3] 2 (3 / 2) (Suc 0) [Finite 0] = [Finite (1 / 16384)]"
    by (simp add: fill_channel_def upt sample_at_def)
  have store: "store_channels [1, 2, 3] 2 (3 / 2)
      \<lparr>buf_length = Suc 0, buf_sampleRate = 24000, buf_channels = [[Finite 0], [Finite 0]]\<rparr>
    = \<lparr>buf_length = Suc 0, buf_sampleRate = 24000,
       buf_channels = [[Finite (1 / 32768)], [Finite (1 / 16384)]]\<rparr>"
    by (simp add: store_channels_def upt ch0 ch1)
  show ?thesis by (simp add: decodeAudioData_def whole_array_def view buf store)
qed

lemma decode_one_byte_view:
  "decodeAudioData \<lparr>array_buffer = [1, 0], array_offset = 0, array_length = 1\<rparr>
       standard_platform 24000 1 =
     Inr \<lparr>buf_length = 1, buf_sampleRate = 24000, buf_channels = [[Finite (1 / 32768)]]\<rparr>"
  by (simp add: decodeAudioData_def Int16Array_of_bytes_def int16_of_bytes_def
      createBuffer_def channel_limit_def lowest_rate_def highest_rate_def
      standard_platform_def store_channels_def fill_channel_def sample_at_def)

text \<open>
  C6, as stated: for every sample sequence with all values in \<open>[-1, 1]\<close> and every channel
  count dividing the sample count, decoding the encoded frame recovers each sample
  within \<open>1/32768\<close>. It fails at the single sample \<open>1.0\<close> on one channel, which comes back
  as \<open>-1.0\<close>; at the empty sequence, for which no buffer can be created; and at 33
  samples on 33 channels, which a platform with the required limit of 32 channels
  rejects.
\<close>

theorem C6_full_scale_counterexample:
  "- 1 \<le> (1::real) \<and> (1::real) \<le> 1 \<and> 1 dvd length [1::real] \<and>
   decodeAudioData (whole_array (samplesToFrame [1])) standard_platform 24000 1 =
     Inr \<lparr>buf_length = 1, buf_sampleRate = 24000, buf_channels = [[Finite (- 1)]]\<rparr> \<and>
   \<not> recovered [1] 1 \<lparr>buf_length = 1, buf_sampleRate = 24000, buf_channels = [[Finite (- 1)]]\<rparr> \<and>
   decodeAudioData (whole_array (samplesToFrame [])) standard_platform 24000 1
     = Inl NotSupportedError \<and>
   33 dvd length (replicate 33 (0::real)) \<and>
   decodeAudioData (whole_array (samplesToFrame (replicate 33 0))) standard_platform 24000 33
     = Inl NotSupportedError"
  using decode_full_scale decode_no_samples decode_too_many_channels
  by (simp add: recovered_def)

text \<open>
  C6, amended: for every non-empty sample sequence with all values in \<open>[-1, 1)\<close> and
  every channel count \<open>c\<close> from 1 to 32 dividing the sample count, on every platform,
  \<open>decodeAudioData\<close> of the frame produced by the capture conversion, at the 24000 Hz
  at which the repository decodes, succeeds, and the buffer recovers the samples:
  \<open>length s div c\<close> frames per channel, each within \<open>1/32768\<close> of the sample it came from.
\<close>

theorem C6_roundtrip_below_full_scale:
  assumes "s \<noteq> []"
    and "\<forall>x\<in>set s. - 1 \<le> x \<and> x < 1"
    and "0 < c" and "c \<le> 32" and "c dvd length s"
  shows "\<exists>buffer. decodeAudioData (whole_array (samplesToFrame s)) ctx 24000 c = Inr buffer \<and>
           recovered s c buffer"
  using assms by (intro decode_frame) simp_all

theorem C6_roundtrip_witness:
  "\<exists>buffer. decodeAudioData (whole_array (samplesToFrame [1 / 2, - 1, 0, 1 / 3]))
       standard_platform 24000 2 = Inr buffer \<and>
     recovered [1 / 2, - 1, 0, 1 / 3] 2 buffer"
  using C6_roundtrip_below_full_scale [of "[1 / 2, - 1, 0, 1 / 3]" 2 standard_platform] by simp

text \<open>
  C8, as stated: every byte array whose length is not a multiple of \<open>2 * channelCount\<close>
  makes the decoder fail. Six bytes on two channels are three samples, not a multiple of
  four bytes, and the decoder returns a buffer of one frame per channel: the third
  sample is dropped. An array of one byte that is a view of a buffer of two bytes is
  decoded, on one channel, to the one sample that the buffer holds.
\<close>

theorem C8_even_length_counterexample:
  "\<not> 2 * 2 dvd array_length (whole_array [1, 0, 2, 0, 3, 0]) \<and>
   decodeAudioData (whole_array [1, 0, 2, 0, 3, 0]) standard_platform 24000 2 =
     Inr \<lparr>buf_length = 1, buf_sampleRate = 24000,
          buf_channels = [[Finite (1 / 32768)], [Finite (1 / 16384)]]\<rparr> \<and>
   \<not> 2 * 1 dvd array_length \<lparr>array_buffer = [1, 0], array_offset = 0, array_length = 1\<rparr> \<and>
   decodeAudioData \<lparr>array_buffer = [1, 0], array_offset = 0, array_length = 1\<rparr>
       standard_platform 24000 1 =
     Inr \<lparr>buf_length = 1, buf_sampleRate = 24000, buf_channels = [[Finite (1 / 32768)]]\<rparr>"
proof -
  have len: "array_length (whole_array [1, 0, 2, 0, 3, 0]) = 6"
    by (simp add: whole_array_def)
  have "\<not> 2 * 2 dvd array_length (whole_array [1, 0, 2, 0, 3, 0])"
    by (simp only: len) simp
  moreover have
    "\<not> 2 * 1 dvd array_length \<lparr>array_buffer = [1, 0], array_offset = 0, array_length = 1\<rparr>"
    by simp
  ultimately show ?thesis
    using decode_three_samples_two_channels decode_one_byte_view by blast
qed

text \<open>
  C8, amended: \<open>decodeAudioData\<close> has no length check of its own and no error named
  \<open>InvalidFrameLength\<close>. It fails, with the \<open>RangeError\<close> of the 16-bit view, whenever the
  buffer under the byte array has odd length, whatever the channel count, the sample
  rate and the platform; for an array that spans its buffer, as every array that the
  repository passes does, that is whenever the array has odd length, and with one
  channel, the only count the repository passes, whenever the length of the array is
  not a multiple of \<open>2 * channelCount\<close>. An array of even length that spans its buffer
  and holds at least one sample per channel, on 1 to 32 channels at 24000 Hz, is
  accepted on every platform: the result has \<open>(length div 2) div channelCount\<close> frames,
  the samples beyond the last whole frame being dropped.
\<close>

theorem C8_odd_length_fails:
  "(odd (length (array_buffer data)) \<longrightarrow>
      decodeAudioData data ctx sampleRate numChannels = Inl RangeError) \<and>
   (odd (length bytes) \<longrightarrow>
      decodeAudioData (whole_array bytes) ctx sampleRate numChannels = Inl RangeError) \<and>
   (\<not> 2 * 1 dvd length bytes \<longrightarrow>
      decodeAudioData (whole_array bytes) ctx sampleRate 1 = Inl RangeError) \<and>
   (even (length bytes) \<and> 0 < numChannels \<and> numChannels \<le> 32 \<and>
    numChannels \<le> length bytes div 2 \<longrightarrow>
      (\<exists>buffer. decodeAudioData (whole_array bytes) ctx 24000 numChannels = Inr buffer \<and>
         buf_length buffer = length bytes div 2 div numChannels))"
  using odd_fails [of data ctx sampleRate numChannels]
    odd_fails [of "whole_array bytes" ctx sampleRate numChannels]
    odd_fails [of "whole_array bytes" ctx sampleRate 1]
    even_truncates [of bytes numChannels ctx]
  by (auto simp add: whole_array_def)

theorem C8_odd_length_witness:
  "decodeAudioData \<lparr>array_buffer = [1, 0, 2], array_offset = 1, array_length = 2\<rparr>
       standard_platform 24000 2 = Inl RangeError \<and>
   decodeAudioData (whole_array [1, 0, 2]) standard_platform 24000 2 = Inl RangeError \<and>
   decodeAudioData (whole_array [1, 0, 2]) standard_platform 24000 1 = Inl RangeError \<and>
   (\<exists>buffer. decodeAudioData (whole_array [1, 0, 2, 0, 3, 0]) standard_platform 24000 2
        = Inr buffer \<and> buf_length buffer = 1)"
  using C8_odd_length_fails [of "\<lparr>array_buffer = [1, 0, 2], array_offset = 1, array_length = 2\<rparr>"
      standard_platform 24000 2 "[1, 0, 2]"]
    C8_odd_length_fails [of "whole_array [1, 0, 2]" standard_platform 24000 2
      "[1, 0, 2, 0, 3, 0]"]
  by simp

text \<open>
  C9. In the capture conversion an input sample of exactly \<open>1.0\<close>, which lies inside
  \<open>[-1, 1]\<close>, is scaled to \<open>32768\<close> and stored into a 16-bit signed slot, where it wraps
  to \<open>-32768\<close>: full-scale positive input is encoded as the most negative 16-bit value
  (bytes \<open>00 80\<close>), not as \<open>32767\<close>.
\<close>

theorem C9_full_scale_wraps:
  "(-1::real) \<le> 1 \<and> (1::real) \<le> 1 \<and>
   js_truncate (1 * 32768) = 32768 \<and>
   map sint (samplesToInt16 [1]) = [- 32768] \<and>
   map sint (samplesToInt16 [1]) \<noteq> [32767] \<and>
   samplesToFrame [1] = [0, 128]"
  by (simp add: samplesToFrame_def Uint8Array_of_Int16_def int16_bytes_def
      samplesToInt16_def ToInt16_def js_truncate_def)

section \<open>Properties of the byte/text codec\<close>

lemma b64_value_char: "n < 64 \<Longrightarrow> b64_value (b64_char n) = Some n"
  by (auto simp add: b64_value_def b64_char_def Let_def)

lemma b64_char_not_ws: "n < 64 \<Longrightarrow> \<not> ascii_whitespace (b64_char n)"
  by (auto simp add: ascii_whitespace_def b64_char_def)

lemma b64_char_not_pad:
  assumes n: "n < 64"
  shows "b64_char n \<noteq> CHR ''=''"
proof
  assume eq: "b64_char n = CHR ''=''"
  have "b64_value (CHR ''='') = None" by (simp add: b64_value_def)
  with b64_value_char [OF n] eq show False by simp
qed

lemma pad_not_ws: "\<not> ascii_whitespace (CHR ''='')"
  by (simp add: ascii_whitespace_def)

lemma padding_step: "padding (a # b # c # r) = padding r"
  by (simp add: padding_def)

lemma btoa_groups_split: "btoa_groups bs = map b64_char (sextets bs) @ padding bs"
  by (induction bs rule: btoa_groups.induct) (simp_all add: padding_step, simp_all add: padding_def numeral_2_eq_2)

lemma sextets_bound: "\<forall>b\<in>set bs. b < 256 \<Longrightarrow> \<forall>x\<in>set (sextets bs). x < 64"
  by (induction bs rule: sextets.induct) auto

lemma atob_groups_sextets: "\<forall>b\<in>set bs. b < 256 \<Longrightarrow> atob_groups (sextets bs) = bs"
  by (induction bs rule: sextets.induct) auto

lemma those_values: "\<forall>x\<in>set xs. x < 64 \<Longrightarrow> those (map (b64_value \<circ> b64_char) xs) = Some xs"
  by (induction xs) (simp_all add: b64_value_char)

lemma length_sextets: "length (sextets bs) = (4 * length bs + 2) div 3"
  by (induction bs rule: sextets.induct) simp_all

lemma length_btoa_groups: "length (btoa_groups bs) mod 4 = 0"
  by (induction bs rule: btoa_groups.induct) simp_all


lemma strip_padding_chars:
  assumes xs: "\<forall>x\<in>set xs. x < 64"
    and k: "k \<le> 2"
    and len: "(length xs + k) mod 4 = 0"
  shows "strip_padding (map b64_char xs @ replicate k (CHR ''='')) = map b64_char xs"
proof -
  have nolast: "ys \<noteq> [] \<Longrightarrow> \<forall>x\<in>set ys. x < 64 \<Longrightarrow> last (map b64_char ys) \<noteq> CHR ''=''" for ys
    by (simp add: last_map b64_char_not_pad)
  from k consider "k = 0" | "k = 1" | "k = 2" by linarith
  then show ?thesis
  proof cases
    case 1
    then show ?thesis using nolast [of xs] xs
      by (cases "xs = []") (simp_all add: strip_padding_def)
  next
    case 2
    then show ?thesis using nolast [of xs] xs len
      by (cases "xs = []") (simp_all add: strip_padding_def)
  next
    case 3
    then show ?thesis using len
      by (simp add: strip_padding_def numeral_2_eq_2 butlast_append)
  qed
qed

lemma padding_le: "length (padding bs) \<le> 2"
  by (simp add: padding_def)

lemma padding_replicate: "padding bs = replicate (length (padding bs)) (CHR ''='')"
  by (simp add: padding_def)

lemma filter_btoa_groups:
  assumes "\<forall>b\<in>set bs. b < 256"
  shows "filter (\<lambda>c. \<not> ascii_whitespace c) (btoa_groups bs) = btoa_groups bs"
proof -
  have "\<forall>c\<in>set (btoa_groups bs). \<not> ascii_whitespace c"
    using sextets_bound [OF assms]
    by (auto simp add: btoa_groups_split padding_def b64_char_not_ws pad_not_ws)
  then show ?thesis by (simp add: filter_id_conv)
qed

lemma atob_btoa_groups:
  assumes bs: "\<forall>b\<in>set bs. b < 256"
  shows "atob (btoa_groups bs) = Inr (map char_of bs)"
proof -
  let ?xs = "sextets bs"
  have x64: "\<forall>x\<in>set ?xs. x < 64" by (rule sextets_bound [OF bs])
  have len: "(length ?xs + length (padding bs)) mod 4 = 0"
    using length_btoa_groups [of bs] by (simp add: btoa_groups_split)
  have strip: "strip_padding (btoa_groups bs) = map b64_char ?xs"
    using strip_padding_chars [OF x64 padding_le len] padding_replicate [of bs]
    by (simp add: btoa_groups_split)
  have l1: "length ?xs mod 4 \<noteq> 1"
    by (simp add: length_sextets) presburger
  show ?thesis
    using l1 by (simp add: atob_def filter_btoa_groups [OF bs] strip those_values [OF x64]
        atob_groups_sextets [OF bs])
qed

lemma atob_btoa: "atob (btoa s) = Inr s"
proof -
  have "\<forall>b\<in>set (map of_char s :: nat list). b < 256" by simp
  from atob_btoa_groups [OF this] show ?thesis
    by (simp add: btoa_def comp_def)
qed

lemma decode_encode: "decodeAudio (encodeAudio bytes) = Inr bytes"
proof -
  have small: "unat b mod 256 = unat b" for b :: byte
    using unsigned_less [of b, where ?'a = nat] by simp
  have "map (\<lambda>c. (of_nat (of_char c) :: byte)) (map (\<lambda>b. char_of (unat b)) bytes) = bytes"
    by (induction bytes) (simp_all add: small)
  then show ?thesis by (simp add: decodeAudio_def encodeAudio_def atob_btoa)
qed

text \<open>
  C7. For every byte sequence \<open>b\<close>, the empty one included, decoding the encoded text
  gives \<open>b\<close> back: \<open>decodeAudio (encodeAudio b) = b\<close>. The encoder is a total function.
\<close>

theorem C7_decode_encode:
  "decodeAudio (encodeAudio b) = Inr b \<and> decodeAudio (encodeAudio []) = Inr []"
  by (simp add: decode_encode)

section \<open>Properties of the playback scheduler\<close>

lemma onmessage_no_audio:
  "audio_of m = None \<Longrightarrow> onmessage t m s = (None, interrupted_part m s)"
  by (auto simp add: audio_of_def onmessage_def split: option.splits if_splits)

lemma onmessage_no_context:
  "audio_of m = Some r \<Longrightarrow> outputAudioContextRef s = None \<Longrightarrow> onmessage t m s = (None, s)"
  by (auto simp add: audio_of_def onmessage_def split: option.splits if_splits)

lemma onmessage_throws:
  "audio_of m = Some (Inl e) \<Longrightarrow> outputAudioContextRef s = Some ctx \<Longrightarrow>
   onmessage t m s = (Some e, s\<lparr>nextStartTimeRef := max (nextStartTimeRef s) t\<rparr>)"
  by (auto simp add: audio_of_def onmessage_def Let_def decode_playback_rate [of _ "platform s"]
      split: option.splits if_splits sum.splits)

lemma onmessage_audio:
  "audio_of m = Some (Inr b) \<Longrightarrow> outputAudioContextRef s = Some ctx \<Longrightarrow>
   onmessage t m s =
     (None, interrupted_part m (start_source b (s\<lparr>nextStartTimeRef := max (nextStartTimeRef s) t\<rparr>)))"
  by (auto simp add: audio_of_def onmessage_def Let_def decode_playback_rate [of _ "platform s"]
      split: option.splits if_splits sum.splits)

lemma duration_nonneg: "0 \<le> duration b"
  by (simp add: duration_def)

lemma started_append: "started (xs @ ys) = started xs @ started ys"
  by (induction xs rule: started.induct) simp_all

lemma step_shape:
  assumes "\<not> interrupts ev"
  shows "\<exists>new. effects (playback_step ev s) = effects s @ new \<and>
           ((started new = [] \<and> nextStartTimeRef s \<le> nextStartTimeRef (playback_step ev s)) \<or>
            (\<exists>w d. started new = [(w, d)] \<and> nextStartTimeRef s \<le> w \<and> 0 \<le> d \<and>
                   nextStartTimeRef (playback_step ev s) = w + d))"
proof (cases ev)
  case (Ended src)
  then show ?thesis by (simp add: source_ended_def)
next
  case (Inbound t m)
  with assms have ni: "\<not> interrupted m" by simp
  show ?thesis
  proof (cases "audio_of m")
    case None
    then show ?thesis using Inbound ni
      by (simp add: onmessage_no_audio interrupted_part_def)
  next
    case (Some r)
    show ?thesis
    proof (cases "outputAudioContextRef s")
      case None
      then show ?thesis using Inbound Some by (simp add: onmessage_no_context)
    next
      case ctx: (Some ctx)
      show ?thesis
      proof (cases r)
        case (Inl e)
        then show ?thesis using Inbound Some ctx
          by (simp add: onmessage_throws)
      next
        case (Inr b)
        then show ?thesis using Inbound Some ctx ni
          by (simp add: onmessage_audio interrupted_part_def start_source_def emit_def
              duration_nonneg)
      qed
    qed
  qed
qed

lemma run_shape:
  assumes "\<forall>ev\<in>set evs. \<not> interrupts ev"
  shows "\<exists>new. effects (playback_run evs s) = effects s @ new \<and>
           sorted_wrt before (started new) \<and>
           (\<forall>x\<in>set (started new). nextStartTimeRef s \<le> fst x \<and> 0 \<le> snd x)"
  using assms
proof (induction evs arbitrary: s)
  case Nil
  then show ?case by simp
next
  case (Cons ev evs)
  let ?s1 = "playback_step ev s"
  from Cons.prems have ni: "\<not> interrupts ev" and rest: "\<forall>ev\<in>set evs. \<not> interrupts ev"
    by simp_all
  from step_shape [OF ni, of s] obtain new1 where
    e1: "effects ?s1 = effects s @ new1" and
    sh: "(started new1 = [] \<and> nextStartTimeRef s \<le> nextStartTimeRef ?s1) \<or>
         (\<exists>w d. started new1 = [(w, d)] \<and> nextStartTimeRef s \<le> w \<and> 0 \<le> d \<and>
                nextStartTimeRef ?s1 = w + d)"
    by blast
  from Cons.IH [OF rest, of ?s1] obtain new2 where
    e2: "effects (playback_run evs ?s1) = effects ?s1 @ new2" and
    so: "sorted_wrt before (started new2)" and
    lo: "\<forall>x\<in>set (started new2). nextStartTimeRef ?s1 \<le> fst x \<and> 0 \<le> snd x"
    by blast
  have eff: "effects (playback_run (ev # evs) s) = effects s @ (new1 @ new2)"
    using e1 e2 by simp
  from sh have "sorted_wrt before (started (new1 @ new2)) \<and>
      (\<forall>x\<in>set (started (new1 @ new2)). nextStartTimeRef s \<le> fst x \<and> 0 \<le> snd x)"
  proof
    assume "started new1 = [] \<and> nextStartTimeRef s \<le> nextStartTimeRef ?s1"
    then show ?thesis using so lo by (fastforce simp add: started_append)
  next
    assume "\<exists>w d. started new1 = [(w, d)] \<and> nextStartTimeRef s \<le> w \<and> 0 \<le> d \<and>
                nextStartTimeRef ?s1 = w + d"
    then obtain w d where "started new1 = [(w, d)]" "nextStartTimeRef s \<le> w" "0 \<le> d"
      "nextStartTimeRef ?s1 = w + d" by blast
    then show ?thesis using so lo
      by (fastforce simp add: started_append before_def)
  qed
  with eff show ?case by blast
qed

lemma scheduled_sorted:
  assumes "\<forall>ev\<in>set evs. \<not> interrupts ev"
  shows "sorted_wrt before (scheduled evs s)"
proof -
  from run_shape [OF assms, of s] obtain new where
    "effects (playback_run evs s) = effects s @ new" "sorted_wrt before (started new)" by blast
  then show ?thesis by (simp add: scheduled_def)
qed

lemma scheduled_adjacent:
  assumes "\<forall>ev\<in>set evs. \<not> interrupts ev" and "Suc k < length (scheduled evs s)"
  shows "fst (scheduled evs s ! k) + snd (scheduled evs s ! k) \<le> fst (scheduled evs s ! Suc k)"
  using sorted_wrt_nth_less [OF scheduled_sorted [OF assms(1), of s], of k "Suc k"] assms(2)
  by (simp add: before_def)

lemma decode_sampleRate:
  "decodeAudioData data ctx sampleRate numChannels = Inr b \<Longrightarrow> buf_sampleRate b = sampleRate"
  by (auto simp add: decodeAudioData_def createBuffer_def store_channels_fields Let_def
      split: sum.splits if_splits)

lemma btoa_groups_nonempty: "bs \<noteq> [] \<Longrightarrow> btoa_groups bs \<noteq> []"
  by (induction bs rule: btoa_groups.induct) simp_all

lemma encodeAudio_nonempty: "bytes \<noteq> [] \<Longrightarrow> encodeAudio bytes \<noteq> []"
  by (simp add: encodeAudio_def btoa_def btoa_groups_nonempty)

lemma silence_audio:
  "\<exists>b. audio_of silence = Some (Inr b) \<and> duration b = 1 / 10"
proof -
  let ?s = "replicate 2400 (0::real)"
  have "\<exists>buffer. decodeAudioData (whole_array (samplesToFrame ?s)) standard_platform 24000 1
      = Inr buffer \<and> recovered ?s 1 buffer"
    by (rule decode_frame) simp_all
  then obtain b where
    dec: "decodeAudioData (whole_array (samplesToFrame ?s)) standard_platform 24000 1 = Inr b"
    and rec: "recovered ?s 1 b" by blast
  have "buf_length b = 2400" using rec by (simp add: recovered_def)
  moreover have "buf_sampleRate b = 24000" using dec by (rule decode_sampleRate)
  ultimately have dur: "duration b = 1 / 10" by (simp add: duration_def)
  have "length (samplesToFrame ?s) = 4800"
    by (simp add: samplesToFrame_def length_view samplesToInt16_def)
  then have "samplesToFrame ?s \<noteq> []" by auto
  then have ne: "encodeAudio (samplesToFrame ?s) \<noteq> []" by (rule encodeAudio_nonempty)
  have "audio_of silence = Some (Inr b)"
    using ne dec by (simp add: audio_of_def silence_def decode_encode)
  with dur show ?thesis by blast
qed

lemma enqueue_step:
  assumes "audio_of m = Some (Inr b)" "outputAudioContextRef s = Some ctx" "\<not> interrupted m"
  shows "fst (onmessage t m s) = None"
    and "effects (snd (onmessage t m s)) =
           effects s @ [SourceStart (nextSource s) (max (nextStartTimeRef s) t) (duration b)]"
    and "sourcesRef (snd (onmessage t m s)) = sourcesRef s @ [nextSource s]"
    and "nextStartTimeRef (snd (onmessage t m s)) = max (nextStartTimeRef s) t + duration b"
    and "outputAudioContextRef (snd (onmessage t m s)) = Some ctx"
  using assms
  by (simp_all add: onmessage_audio [OF assms(1,2)] interrupted_part_def start_source_def emit_def)

lemma two_frames:
  assumes m1: "audio_of m1 = Some (Inr b1)" and m2: "audio_of m2 = Some (Inr b2)"
    and d1: "duration b1 = 1 / 10" and d2: "duration b2 = 1 / 10"
    and n1: "\<not> interrupted m1" and n2: "\<not> interrupted m2"
    and ctx: "outputAudioContextRef s = Some ctx"
    and T: "nextStartTimeRef s = T" and t2: "t2 \<le> T + 1 / 10"
  shows "scheduled [Inbound T m1, Inbound t2 m2] s = [(T, 1 / 10), (T + 1 / 10, 1 / 10)]"
    and "nextStartTimeRef (playback_run [Inbound T m1, Inbound t2 m2] s) = T + 2 / 10"
proof -
  let ?s1 = "snd (onmessage T m1 s)"
  let ?s2 = "snd (onmessage t2 m2 ?s1)"
  note first = enqueue_step [OF m1 ctx n1, of T]
  note second = enqueue_step [OF m2 first(5) n2, of t2]
  have c1: "nextStartTimeRef ?s1 = T + 1 / 10" using first(4) T d1 by simp
  have e2: "effects ?s2 = effects s @ [SourceStart (nextSource s) T (1 / 10),
      SourceStart (nextSource ?s1) (T + 1 / 10) (1 / 10)]"
    using second(2) first(2) c1 T d1 d2 t2 by (simp add: max_def)
  show "scheduled [Inbound T m1, Inbound t2 m2] s = [(T, 1 / 10), (T + 1 / 10, 1 / 10)]"
    by (simp add: scheduled_def e2)
  show "nextStartTimeRef (playback_run [Inbound T m1, Inbound t2 m2] s) = T + 2 / 10"
    using second(4) c1 d2 t2 by (simp add: max_def)
qed

text \<open>
  C1. Every inbound audio frame that is enqueued starts at the maximum of the cursor
  and the clock of the output context, and leaves the cursor at that start plus the
  duration of the frame. For every sequence of playback events without an interruption,
  the segments scheduled are pairwise ordered: each starts no earlier than every
  earlier one ends, in particular segment \<open>k + 1\<close> no earlier than the end of segment
  \<open>k\<close>. Two frames of 0.1 s enqueued with the cursor at the clock reading \<open>T\<close>, the second
  arriving no later than \<open>T + 0.1\<close>, are scheduled at \<open>T\<close> and \<open>T + 0.1\<close> and leave the
  cursor at \<open>T + 0.2\<close>. Clock readings and durations are reals.
\<close>

theorem C1_playback_schedule:
  "(audio_of m = Some (Inr b) \<and> outputAudioContextRef s = Some ctx \<and> \<not> interrupted m \<longrightarrow>
      fst (onmessage t m s) = None \<and>
      effects (snd (onmessage t m s)) =
        effects s @ [SourceStart (nextSource s) (max (nextStartTimeRef s) t) (duration b)] \<and>
      sourcesRef (snd (onmessage t m s)) = sourcesRef s @ [nextSource s] \<and>
      nextStartTimeRef (snd (onmessage t m s)) = max (nextStartTimeRef s) t + duration b) \<and>
   ((\<forall>ev\<in>set evs. \<not> interrupts ev) \<longrightarrow>
      sorted_wrt before (scheduled evs s) \<and>
      (\<forall>k. Suc k < length (scheduled evs s) \<longrightarrow>
         fst (scheduled evs s ! k) + snd (scheduled evs s ! k) \<le> fst (scheduled evs s ! Suc k))) \<and>
   (audio_of m1 = Some (Inr b1) \<and> audio_of m2 = Some (Inr b2) \<and>
    duration b1 = 1 / 10 \<and> duration b2 = 1 / 10 \<and> \<not> interrupted m1 \<and> \<not> interrupted m2 \<and>
    outputAudioContextRef s = Some ctx \<and> nextStartTimeRef s = T \<and> t2 \<le> T + 1 / 10 \<longrightarrow>
      scheduled [Inbound T m1, Inbound t2 m2] s = [(T, 1 / 10), (T + 1 / 10, 1 / 10)] \<and>
      nextStartTimeRef (playback_run [Inbound T m1, Inbound t2 m2] s) = T + 2 / 10)"
proof (intro conjI impI allI)
  assume a: "audio_of m = Some (Inr b) \<and> outputAudioContextRef s = Some ctx \<and> \<not> interrupted m"
  then have a1: "audio_of m = Some (Inr b)" and a2: "outputAudioContextRef s = Some ctx"
    and a3: "\<not> interrupted m" by simp_all
  show "fst (onmessage t m s) = None" by (rule enqueue_step(1) [OF a1 a2 a3])
  show "effects (snd (onmessage t m s)) =
        effects s @ [SourceStart (nextSource s) (max (nextStartTimeRef s) t) (duration b)]"
    by (rule enqueue_step(2) [OF a1 a2 a3])
  show "sourcesRef (snd (onmessage t m s)) = sourcesRef s @ [nextSource s]"
    by (rule enqueue_step(3) [OF a1 a2 a3])
  show "nextStartTimeRef (snd (onmessage t m s)) = max (nextStartTimeRef s) t + duration b"
    by (rule enqueue_step(4) [OF a1 a2 a3])
next
  assume n: "\<forall>ev\<in>set evs. \<not> interrupts ev"
  show "sorted_wrt before (scheduled evs s)" by (rule scheduled_sorted [OF n])
  fix k assume "Suc k < length (scheduled evs s)"
  then show "fst (scheduled evs s ! k) + snd (scheduled evs s ! k) \<le> fst (scheduled evs s ! Suc k)"
    by (rule scheduled_adjacent [OF n])
next
  assume h: "audio_of m1 = Some (Inr b1) \<and> audio_of m2 = Some (Inr b2) \<and>
    duration b1 = 1 / 10 \<and> duration b2 = 1 / 10 \<and> \<not> interrupted m1 \<and> \<not> interrupted m2 \<and>
    outputAudioContextRef s = Some ctx \<and> nextStartTimeRef s = T \<and> t2 \<le> T + 1 / 10"
  then show "scheduled [Inbound T m1, Inbound t2 m2] s = [(T, 1 / 10), (T + 1 / 10, 1 / 10)]"
    by (intro two_frames(1) [where ?b1.0 = b1 and ?b2.0 = b2 and ctx = ctx]) simp_all
  from h show "nextStartTimeRef (playback_run [Inbound T m1, Inbound t2 m2] s) = T + 2 / 10"
    by (intro two_frames(2) [where ?b1.0 = b1 and ?b2.0 = b2 and ctx = ctx]) simp_all
qed

theorem C1_playback_schedule_witness:
  "scheduled [Inbound 7 silence, Inbound 7 silence] listening = [(7, 1 / 10), (7 + 1 / 10, 1 / 10)] \<and>
   nextStartTimeRef (playback_run [Inbound 7 silence, Inbound 7 silence] listening) = 7 + 2 / 10 \<and>
   sorted_wrt before (scheduled [Inbound 7 silence, Inbound 7 silence] listening) \<and>
   nextStartTimeRef (snd (onmessage 9 silence listening)) = 9 + 1 / 10"
proof -
  from silence_audio obtain b where b: "audio_of silence = Some (Inr b)" "duration b = 1 / 10"
    by blast
  have ctx: "outputAudioContextRef listening = Some 24000" "nextStartTimeRef listening = 7"
    by (simp_all add: listening_def mounted_def)
  have ni: "\<not> interrupted silence" by (simp add: silence_def)
  show ?thesis
    using C1_playback_schedule [where m = silence and b = b and s = listening and ctx = 24000
        and t = 9 and evs = "[Inbound 7 silence, Inbound 7 silence]"
        and ?m1.0 = silence and ?m2.0 = silence and ?b1.0 = b and ?b2.0 = b and T = 7 and ?t2.0 = 7]
      b ctx ni
    by (simp add: before_def)
qed

section \<open>Properties of the interruption\<close>

lemma interrupt_no_audio:
  assumes "audio_of m = None" "interrupted m"
  shows "fst (onmessage t m s) = None"
    and "effects (snd (onmessage t m s)) = effects s @ map SourceStop (sourcesRef s)"
    and "sourcesRef (snd (onmessage t m s)) = []"
    and "nextStartTimeRef (snd (onmessage t m s)) = 0"
    and "outputAudioContextRef (snd (onmessage t m s)) = outputAudioContextRef s"
    and "nextSource (snd (onmessage t m s)) = nextSource s"
  using assms by (simp_all add: onmessage_no_audio interrupted_part_def emit_def)

lemma interrupt_with_audio:
  assumes "audio_of m = Some (Inr b)" "outputAudioContextRef s = Some ctx" "interrupted m"
  shows "fst (onmessage t m s) = None"
    and "effects (snd (onmessage t m s)) =
           effects s @ SourceStart (nextSource s) (max (nextStartTimeRef s) t) (duration b)
             # map SourceStop (sourcesRef s @ [nextSource s])"
    and "sourcesRef (snd (onmessage t m s)) = []"
    and "nextStartTimeRef (snd (onmessage t m s)) = 0"
  using assms
  by (simp_all add: onmessage_audio [OF assms(1,2)] interrupted_part_def start_source_def emit_def)

lemma playing_fields:
  "sourcesRef playing = [0]" "nextStartTimeRef playing = 7 + 1 / 10"
  "outputAudioContextRef playing = Some 24000" "started (effects playing) = [(7, 1 / 10)]"
proof -
  from silence_audio obtain b where b: "audio_of silence = Some (Inr b)" "duration b = 1 / 10"
    by blast
  have ctx: "outputAudioContextRef listening = Some 24000" by (simp add: listening_def mounted_def)
  have ni: "\<not> interrupted silence" by (simp add: silence_def)
  note st = enqueue_step [OF b(1) ctx ni, of 7]
  show "sourcesRef playing = [0]"
    using st(3) by (simp add: playing_def listening_def mounted_def)
  show "nextStartTimeRef playing = 7 + 1 / 10"
    using st(4) b(2) by (simp add: playing_def listening_def mounted_def)
  show "outputAudioContextRef playing = Some 24000"
    using st(5) by (simp add: playing_def)
  show "started (effects playing) = [(7, 1 / 10)]"
    using st(2) b(2) by (simp add: playing_def listening_def mounted_def)
qed

lemma barge_in_fields: "audio_of barge_in = None" "interrupted barge_in"
  by (simp_all add: barge_in_def audio_of_def)

text \<open>
  C2, as stated: the interruption resets the cursor to the current reading of the
  device clock. With one segment playing and the clock at \<open>8\<close>, the cursor after the
  interruption is \<open>0\<close>, not \<open>8\<close>; with no segment playing and the cursor at \<open>7\<close>, the
  interruption still moves the cursor to \<open>0\<close>, so it is not a no-op either.
\<close>

theorem C2_cursor_counterexample:
  "sourcesRef playing = [0] \<and>
   nextStartTimeRef (snd (onmessage 8 barge_in playing)) = 0 \<and>
   nextStartTimeRef (snd (onmessage 8 barge_in playing)) \<noteq> 8 \<and>
   sourcesRef listening = [] \<and> nextStartTimeRef listening = 7 \<and>
   nextStartTimeRef (snd (onmessage 9 barge_in listening)) \<noteq> nextStartTimeRef listening"
  using interrupt_no_audio(4) [OF barge_in_fields, of 8 playing]
    interrupt_no_audio(4) [OF barge_in_fields, of 9 listening]
  by (simp add: playing_fields listening_def mounted_def)

text \<open>
  C2, amended: when a message carrying the interruption flag is handled and its audio
  part, if any, does not leave the handler early (no audio payload; or a payload that
  decodes while the output context is set), every source in the active set at that
  moment is stopped, in insertion order, the set is cleared, and the cursor is reset
  to \<open>0\<close>. With no active source and no audio payload nothing is stopped and the set
  stays empty; only the cursor is reset. The next enqueue is unaffected by the state
  before the interruption: at clock reading \<open>t' \<ge> 0\<close> the frame starts at \<open>t'\<close> and leaves
  the cursor at \<open>t'\<close> plus its duration, as the maximum of the cursor and the clock gives
  after a reset to \<open>0\<close>.
\<close>

theorem C2_interrupt_resets_to_zero:
  "(audio_of m = None \<and> interrupted m \<longrightarrow>
      fst (onmessage t m s) = None \<and>
      effects (snd (onmessage t m s)) = effects s @ map SourceStop (sourcesRef s) \<and>
      sourcesRef (snd (onmessage t m s)) = [] \<and>
      nextStartTimeRef (snd (onmessage t m s)) = 0) \<and>
   (audio_of m = Some (Inr b) \<and> outputAudioContextRef s = Some ctx \<and> interrupted m \<longrightarrow>
      fst (onmessage t m s) = None \<and>
      effects (snd (onmessage t m s)) =
        effects s @ SourceStart (nextSource s) (max (nextStartTimeRef s) t) (duration b)
          # map SourceStop (sourcesRef s @ [nextSource s]) \<and>
      sourcesRef (snd (onmessage t m s)) = [] \<and>
      nextStartTimeRef (snd (onmessage t m s)) = 0) \<and>
   (audio_of m = None \<and> interrupted m \<and> sourcesRef s = [] \<longrightarrow>
      effects (snd (onmessage t m s)) = effects s \<and> sourcesRef (snd (onmessage t m s)) = []) \<and>
   (audio_of m = None \<and> interrupted m \<and> outputAudioContextRef s = Some ctx \<and>
    audio_of m' = Some (Inr b') \<and> \<not> interrupted m' \<and> 0 \<le> t' \<longrightarrow>
      effects (snd (onmessage t' m' (snd (onmessage t m s)))) =
        effects (snd (onmessage t m s)) @ [SourceStart (nextSource s) t' (duration b')] \<and>
      sourcesRef (snd (onmessage t' m' (snd (onmessage t m s)))) = [nextSource s] \<and>
      nextStartTimeRef (snd (onmessage t' m' (snd (onmessage t m s)))) = t' + duration b')"
proof (intro conjI impI)
  assume h: "audio_of m = None \<and> interrupted m"
  then have h1: "audio_of m = None" and h2: "interrupted m" by simp_all
  show "fst (onmessage t m s) = None" by (rule interrupt_no_audio(1) [OF h1 h2])
  show "effects (snd (onmessage t m s)) = effects s @ map SourceStop (sourcesRef s)"
    by (rule interrupt_no_audio(2) [OF h1 h2])
  show "sourcesRef (snd (onmessage t m s)) = []" by (rule interrupt_no_audio(3) [OF h1 h2])
  show "nextStartTimeRef (snd (onmessage t m s)) = 0" by (rule interrupt_no_audio(4) [OF h1 h2])
next
  assume h: "audio_of m = Some (Inr b) \<and> outputAudioContextRef s = Some ctx \<and> interrupted m"
  then have h1: "audio_of m = Some (Inr b)" and h2: "outputAudioContextRef s = Some ctx"
    and h3: "interrupted m" by simp_all
  show "fst (onmessage t m s) = None" by (rule interrupt_with_audio(1) [OF h1 h2 h3])
  show "effects (snd (onmessage t m s)) =
        effects s @ SourceStart (nextSource s) (max (nextStartTimeRef s) t) (duration b)
          # map SourceStop (sourcesRef s @ [nextSource s])"
    by (rule interrupt_with_audio(2) [OF h1 h2 h3])
  show "sourcesRef (snd (onmessage t m s)) = []" by (rule interrupt_with_audio(3) [OF h1 h2 h3])
  show "nextStartTimeRef (snd (onmessage t m s)) = 0"
    by (rule interrupt_with_audio(4) [OF h1 h2 h3])
next
  assume h: "audio_of m = None \<and> interrupted m \<and> sourcesRef s = []"
  then show "effects (snd (onmessage t m s)) = effects s"
    using interrupt_no_audio(2) [of m t s] by simp
  from h show "sourcesRef (snd (onmessage t m s)) = []"
    using interrupt_no_audio(3) [of m t s] by simp
next
  assume h: "audio_of m = None \<and> interrupted m \<and> outputAudioContextRef s = Some ctx \<and>
    audio_of m' = Some (Inr b') \<and> \<not> interrupted m' \<and> 0 \<le> t'"
  then have h1: "audio_of m = None" and h2: "interrupted m"
    and h3: "outputAudioContextRef s = Some ctx" and h4: "audio_of m' = Some (Inr b')"
    and h5: "\<not> interrupted m'" and h6: "0 \<le> t'" by simp_all
  note i = interrupt_no_audio [OF h1 h2, of t s]
  have ctx: "outputAudioContextRef (snd (onmessage t m s)) = Some ctx" using i(5) h3 by simp
  note e = enqueue_step [OF h4 ctx h5, of t']
  show "effects (snd (onmessage t' m' (snd (onmessage t m s)))) =
        effects (snd (onmessage t m s)) @ [SourceStart (nextSource s) t' (duration b')]"
    using e(2) i(4) i(6) h6 by simp
  show "sourcesRef (snd (onmessage t' m' (snd (onmessage t m s)))) = [nextSource s]"
    using e(3) i(3) i(6) by simp
  show "nextStartTimeRef (snd (onmessage t' m' (snd (onmessage t m s)))) = t' + duration b'"
    using e(4) i(4) h6 by simp
qed

theorem C2_interrupt_witness:
  "effects (snd (onmessage 8 barge_in playing)) = effects playing @ [SourceStop 0] \<and>
   sourcesRef (snd (onmessage 8 barge_in playing)) = [] \<and>
   nextStartTimeRef (snd (onmessage 8 barge_in playing)) = 0 \<and>
   effects (snd (onmessage 9 barge_in listening)) = effects listening \<and>
   nextStartTimeRef (snd (onmessage 9 silence (snd (onmessage 8 barge_in playing)))) = 9 + 1 / 10 \<and>
   sourcesRef (snd (onmessage 8 (silence\<lparr>interrupted := True\<rparr>) playing)) = []"
proof -
  from silence_audio obtain b where b: "audio_of silence = Some (Inr b)" "duration b = 1 / 10"
    by blast
  have b': "audio_of (silence\<lparr>interrupted := True\<rparr>) = Some (Inr b)"
    using b(1) by (simp add: audio_of_def)
  have ni: "\<not> interrupted silence" by (simp add: silence_def)
  have l: "sourcesRef listening = []" by (simp add: listening_def mounted_def)
  show ?thesis
    using C2_interrupt_resets_to_zero [where m = barge_in and s = playing and t = 8
        and ctx = 24000 and m' = silence and b' = b and t' = 9]
      C2_interrupt_resets_to_zero [where m = barge_in and s = listening and t = 9]
      C2_interrupt_resets_to_zero [where m = "silence\<lparr>interrupted := True\<rparr>" and b = b
        and s = playing and t = 8 and ctx = 24000]
      b b' ni l barge_in_fields playing_fields
    by simp
qed

section \<open>Properties of the teardown\<close>

lemma cleanup_capture_fields:
  "processorRef (cleanup_capture s) = None"
  "sourceRef (cleanup_capture s) = None"
  "streamRef (cleanup_capture s) = None"
  "sessionRef (cleanup_capture s) = sessionRef s"
  "outputAudioContextRef (cleanup_capture s) = outputAudioContextRef s"
  "inputAudioContextRef (cleanup_capture s) = inputAudioContextRef s"
  "sourcesRef (cleanup_capture s) = sourcesRef s"
  "pendingSends (cleanup_capture s) = pendingSends s"
  "sessionPromise (cleanup_capture s) = sessionPromise s"
  "nextStartTimeRef (cleanup_capture s) = nextStartTimeRef s"
  by (simp_all add: cleanup_capture_def emit_def Let_def split: option.splits)

lemma cleanup_capture_effects:
  "effects (cleanup_capture s) =
     effects s
     @ (case processorRef s of None \<Rightarrow> [] | Some p \<Rightarrow> [ProcessorDisconnect])
     @ (case sourceRef s of None \<Rightarrow> [] | Some src \<Rightarrow> [SourceDisconnect])
     @ (case streamRef s of None \<Rightarrow> [] | Some tracks \<Rightarrow> map TrackStop [0..<tracks])"
  by (simp add: cleanup_capture_def emit_def Let_def split: option.splits)

lemma cleanup_promise:
  "sessionRef s = Some PromiseObject \<Longrightarrow> cleanup s = (Some TypeError, cleanup_capture s)"
  by (simp add: cleanup_def Let_def cleanup_capture_fields)

lemma cleanup_contexts_fields:
  "outputAudioContextRef (cleanup_contexts s) = None"
  "inputAudioContextRef (cleanup_contexts s) = None"
  "isConnected (cleanup_contexts s) = False"
  "processorRef (cleanup_contexts s) = processorRef s"
  "sourceRef (cleanup_contexts s) = sourceRef s"
  "streamRef (cleanup_contexts s) = streamRef s"
  "sessionRef (cleanup_contexts s) = sessionRef s"
  by (simp_all add: cleanup_contexts_def emit_def Let_def split: option.splits)

lemma cleanup_capture_idle:
  "processorRef s = None \<Longrightarrow> sourceRef s = None \<Longrightarrow> streamRef s = None \<Longrightarrow>
   cleanup_capture s = s"
  by (simp add: cleanup_capture_def)

lemma cleanup_contexts_idle:
  "outputAudioContextRef s = None \<Longrightarrow> inputAudioContextRef s = None \<Longrightarrow>
   \<not> isConnected s \<Longrightarrow> cleanup_contexts s = s"
  by (simp add: cleanup_contexts_def)

lemma cleanup_no_session:
  "sessionRef s = None \<Longrightarrow> cleanup s = (None, cleanup_contexts (cleanup_capture s))"
  by (simp add: cleanup_def Let_def cleanup_capture_fields)

lemma cleanup_without_session:
  assumes "sessionRef s = None"
  shows "fst (cleanup s) = None"
    and "cleanup (snd (cleanup s)) = (None, snd (cleanup s))"
    and "streamRef (snd (cleanup s)) = None"
    and "outputAudioContextRef (snd (cleanup s)) = None"
    and "inputAudioContextRef (snd (cleanup s)) = None"
proof -
  let ?s' = "cleanup_contexts (cleanup_capture s)"
  have c: "cleanup s = (None, ?s')" by (rule cleanup_no_session [OF assms])
  have n: "sessionRef ?s' = None"
    using assms by (simp add: cleanup_contexts_fields cleanup_capture_fields)
  have i1: "cleanup_capture ?s' = ?s'"
    by (rule cleanup_capture_idle) (simp_all add: cleanup_contexts_fields cleanup_capture_fields)
  have i2: "cleanup_contexts ?s' = ?s'"
    by (rule cleanup_contexts_idle) (simp_all add: cleanup_contexts_fields)
  show "fst (cleanup s) = None" by (simp add: c)
  show "cleanup (snd (cleanup s)) = (None, snd (cleanup s))"
    by (simp add: c cleanup_no_session [OF n] i1 i2)
  show "streamRef (snd (cleanup s)) = None"
    by (simp add: c cleanup_contexts_fields cleanup_capture_fields)
  show "outputAudioContextRef (snd (cleanup s)) = None" by (simp add: c cleanup_contexts_fields)
  show "inputAudioContextRef (snd (cleanup s)) = None" by (simp add: c cleanup_contexts_fields)
qed

lemma activated_fields:
  "processorRef activated = Some (ScriptProcessor False)"
  "sourceRef activated = Some MediaStreamSource"
  "streamRef activated = Some 1"
  "sessionRef activated = Some PromiseObject"
  "outputAudioContextRef activated = Some 24000"
  "inputAudioContextRef activated = Some 16000"
  "effects activated = []"
  "isConnected activated"
  by (simp_all add: activated_def connecting_def onopen_def getUserMedia_settled_def
      open_effect_def mounted_def)

text \<open>
  C3. The claim: cleanup can be called twice in a row without an error, and on every
  exit path it disconnects the capture pipeline, stops the microphone, closes the
  transport session and releases both audio graphs. On the state of a completed
  activation the code does otherwise: \<open>sessionRef\<close> holds the promise of the session,
  the call of \<open>close\<close> on it throws a \<open>TypeError\<close>, and cleanup ends there. The
  processor and the source are disconnected and the track is stopped; the session is
  not closed, neither audio context is closed, \<open>isConnected\<close> stays true and
  \<open>sessionRef\<close> stays set, so that a second call throws again.
\<close>

theorem C3_cleanup_throws_after_activation:
  "fst (cleanup activated) = Some TypeError \<and>
   effects (snd (cleanup activated)) = [ProcessorDisconnect, SourceDisconnect, TrackStop 0] \<and>
   streamRef (snd (cleanup activated)) = None \<and>
   sessionRef (snd (cleanup activated)) = Some PromiseObject \<and>
   outputAudioContextRef (snd (cleanup activated)) = Some 24000 \<and>
   inputAudioContextRef (snd (cleanup activated)) = Some 16000 \<and>
   isConnected (snd (cleanup activated)) \<and>
   cleanup (snd (cleanup activated)) = (Some TypeError, snd (cleanup activated))"
proof -
  have c: "cleanup activated = (Some TypeError, cleanup_capture activated)"
    by (rule cleanup_promise) (simp add: activated_fields)
  have c2: "cleanup (cleanup_capture activated)
      = (Some TypeError, cleanup_capture (cleanup_capture activated))"
    by (rule cleanup_promise) (simp add: cleanup_capture_fields activated_fields)
  have idem: "cleanup_capture (cleanup_capture activated) = cleanup_capture activated"
    by (simp add: cleanup_capture_def [of "cleanup_capture activated"] cleanup_capture_fields)
  have conn: "isConnected (cleanup_capture activated)"
    by (simp add: cleanup_capture_def emit_def activated_fields)
  show ?thesis
    by (simp add: c c2 idem conn cleanup_capture_fields cleanup_capture_effects activated_fields)
qed

section \<open>Properties of cancellation and of the capture callback\<close>

lemma session_fulfilled_fields:
  "processorRef (session_fulfilled s) = processorRef s"
  "sourceRef (session_fulfilled s) = sourceRef s"
  "streamRef (session_fulfilled s) = streamRef s"
  "sessionRef (session_fulfilled s) = sessionRef s"
  "outputAudioContextRef (session_fulfilled s) = outputAudioContextRef s"
  "inputAudioContextRef (session_fulfilled s) = inputAudioContextRef s"
  "sourcesRef (session_fulfilled s) = sourcesRef s"
  "nextSource (session_fulfilled s) = nextSource s"
  "nextStartTimeRef (session_fulfilled s) = nextStartTimeRef s"
  "isMuted (session_fulfilled s) = isMuted s"
  "sessionPromise (session_fulfilled s) = Fulfilled"
  "pendingSends (session_fulfilled s) = []"
  by (simp_all add: session_fulfilled_def emit_def)

lemma streaming_fields:
  "processorRef streaming = Some (ScriptProcessor False)"
  "sourceRef streaming = Some MediaStreamSource"
  "streamRef streaming = Some 1"
  "sessionRef streaming = Some PromiseObject"
  "outputAudioContextRef streaming = Some 24000"
  "sourcesRef streaming = []"
  "nextSource streaming = 0"
  "nextStartTimeRef streaming = 0"
  "effects streaming = []"
  "sessionPromise streaming = Fulfilled"
  "isMuted streaming = False"
  by (simp_all add: streaming_def session_fulfilled_fields activated_fields)
     (simp_all add: session_fulfilled_def emit_def activated_def connecting_def onopen_def
        getUserMedia_settled_def open_effect_def mounted_def)

lemma onmessage_keeps_refs:
  "processorRef (snd (onmessage t m s)) = processorRef s"
  "sourceRef (snd (onmessage t m s)) = sourceRef s"
  "streamRef (snd (onmessage t m s)) = streamRef s"
  "sessionRef (snd (onmessage t m s)) = sessionRef s"
  "outputAudioContextRef (snd (onmessage t m s)) = outputAudioContextRef s"
  by (simp_all add: onmessage_def interrupted_part_def start_source_def emit_def Let_def
      split: option.splits sum.splits)

lemma playing_session_fields:
  "sourcesRef playing_session = [0]"
  "nextSource playing_session = 1"
  "started (effects playing_session) = [(7, 1 / 10)]"
  "processorRef playing_session = Some (ScriptProcessor False)"
  "sourceRef playing_session = Some MediaStreamSource"
  "streamRef playing_session = Some 1"
  "sessionRef playing_session = Some PromiseObject"
  "outputAudioContextRef playing_session = Some 24000"
proof -
  from silence_audio obtain b where b: "audio_of silence = Some (Inr b)" "duration b = 1 / 10"
    by blast
  have ni: "\<not> interrupted silence" by (simp add: silence_def)
  have full: "onmessage 7 silence streaming =
      (None, interrupted_part silence
         (start_source b (streaming\<lparr>nextStartTimeRef := max (nextStartTimeRef streaming) 7\<rparr>)))"
    by (rule onmessage_audio [OF b(1) streaming_fields(5)])
  show "sourcesRef playing_session = [0]"
    using ni by (simp add: playing_session_def full interrupted_part_def start_source_def
        emit_def streaming_fields)
  show "nextSource playing_session = 1"
    using ni by (simp add: playing_session_def full interrupted_part_def start_source_def
        emit_def streaming_fields)
  show "started (effects playing_session) = [(7, 1 / 10)]"
    using ni b(2) by (simp add: playing_session_def full interrupted_part_def start_source_def
        emit_def streaming_fields)
  show "processorRef playing_session = Some (ScriptProcessor False)"
    by (simp add: playing_session_def onmessage_keeps_refs streaming_fields)
  show "sourceRef playing_session = Some MediaStreamSource"
    by (simp add: playing_session_def onmessage_keeps_refs streaming_fields)
  show "streamRef playing_session = Some 1"
    by (simp add: playing_session_def onmessage_keeps_refs streaming_fields)
  show "sessionRef playing_session = Some PromiseObject"
    by (simp add: playing_session_def onmessage_keeps_refs streaming_fields)
  show "outputAudioContextRef playing_session = Some 24000"
    by (simp add: playing_session_def onmessage_keeps_refs streaming_fields)
qed

lemma connecting_fields:
  "processorRef connecting = None"
  "sourceRef connecting = None"
  "streamRef connecting = Some 1"
  "sessionRef connecting = Some PromiseObject"
  "effects connecting = []"
  "effect_isMuted connecting = False"
  "sessionPromise connecting = Pending"
  "pendingSends connecting = []"
  by (simp_all add: connecting_def getUserMedia_settled_def open_effect_def mounted_def)

lemma closed_early_eq: "closed_early = cleanup_capture connecting"
  by (simp add: closed_early_def cleanup_promise connecting_fields)

lemma capture_tick_sends:
  "processorRef s = Some (ScriptProcessor False) \<Longrightarrow> sessionPromise s = Fulfilled \<Longrightarrow>
   capture_tick block s =
     emit [SendRealtimeInput ''audio/pcm;rate=16000'' (encodeAudio (samplesToFrame block))] s"
  by (simp add: capture_tick_def onaudioprocess_def promise_then_def)

lemma capture_tick_skips:
  "processorRef s = Some (ScriptProcessor True) \<Longrightarrow> capture_tick block s = s"
  by (simp add: capture_tick_def onaudioprocess_def)

text \<open>
  C4. The claim: once teardown begins all pending work is cancelled, playing segments
  are stopped, the microphone is released, and no callback fires afterwards; no capture
  block reaches the transport's send after cleanup has run. On the code, cleanup of a
  session with one segment playing releases the microphone and then throws at the call
  of \<open>close\<close> on the session promise: the segment is neither stopped nor removed, the
  session and the output context stay open, and a later message still schedules a
  segment. When cleanup runs while the session is connecting, the \<open>onopen\<close> that follows
  installs a processor, and a captured block is handed to \<open>sendRealtimeInput\<close>.
\<close>

theorem C4_work_survives_cleanup:
  "fst (cleanup playing_session) = Some TypeError \<and>
   streamRef (snd (cleanup playing_session)) = None \<and>
   sourcesRef (snd (cleanup playing_session)) = [0] \<and>
   effects (snd (cleanup playing_session)) =
     effects playing_session @ [ProcessorDisconnect, SourceDisconnect, TrackStop 0] \<and>
   outputAudioContextRef (snd (cleanup playing_session)) = Some 24000 \<and>
   sourcesRef (snd (onmessage 8 silence (snd (cleanup playing_session)))) = [0, 1] \<and>
   fst (cleanup connecting) = Some TypeError \<and>
   effects closed_early = [TrackStop 0] \<and>
   effects (capture_tick block (session_fulfilled (onopen closed_early))) =
     [TrackStop 0,
      SendRealtimeInput ''audio/pcm;rate=16000'' (encodeAudio (samplesToFrame block))]"
proof -
  let ?c = "cleanup_capture playing_session"
  have c: "cleanup playing_session = (Some TypeError, ?c)"
    by (rule cleanup_promise) (rule playing_session_fields)
  from silence_audio obtain b where b: "audio_of silence = Some (Inr b)" by blast
  have ni: "\<not> interrupted silence" by (simp add: silence_def)
  have ctx: "outputAudioContextRef ?c = Some 24000"
    by (simp add: cleanup_capture_fields playing_session_fields)
  have nxt: "nextSource ?c = 1"
    by (simp add: cleanup_capture_def emit_def playing_session_fields)
  have later: "sourcesRef (snd (onmessage 8 silence ?c)) = [0, 1]"
    using enqueue_step(3) [OF b ctx ni, of 8]
    by (simp add: cleanup_capture_fields playing_session_fields nxt)
  have e: "cleanup connecting = (Some TypeError, cleanup_capture connecting)"
    by (rule cleanup_promise) (rule connecting_fields)
  have ce: "effects closed_early = [TrackStop 0]"
    by (simp add: closed_early_eq cleanup_capture_effects connecting_fields)
  let ?o = "session_fulfilled (onopen closed_early)"
  have po: "processorRef ?o = Some (ScriptProcessor False)"
    by (simp add: session_fulfilled_fields onopen_def closed_early_eq cleanup_capture_def
        emit_def connecting_fields)
  have eo: "effects ?o = [TrackStop 0]"
    using ce by (simp add: session_fulfilled_def emit_def onopen_def closed_early_eq
        cleanup_capture_fields connecting_fields)
  have tick: "effects (capture_tick block ?o) =
      [TrackStop 0, SendRealtimeInput ''audio/pcm;rate=16000'' (encodeAudio (samplesToFrame block))]"
    by (simp add: capture_tick_sends [OF po session_fulfilled_fields(11)] emit_def eo)
  show ?thesis
    by (simp add: c later e ce tick cleanup_capture_fields cleanup_capture_effects
        playing_session_fields)
qed

lemma toggleMute_fields:
  "processorRef (toggleMute s) = processorRef s"
  "sessionPromise (toggleMute s) = sessionPromise s"
  "effects (toggleMute s) = effects s"
  "sessionRef (toggleMute s) = sessionRef s"
  "streamRef (toggleMute s) = streamRef s"
  "isMuted (toggleMute s) = (\<not> isMuted s)"
  by (simp_all add: toggleMute_def)

lemma capture_ticks_send_each:
  "processorRef s = Some (ScriptProcessor False) \<Longrightarrow> sessionPromise s = Fulfilled \<Longrightarrow>
   effects (capture_ticks blocks s) =
     effects s @ map (\<lambda>block. SendRealtimeInput ''audio/pcm;rate=16000''
                               (encodeAudio (samplesToFrame block))) blocks"
proof (induction blocks arbitrary: s)
  case Nil
  then show ?case by simp
next
  case (Cons block blocks)
  let ?s1 = "capture_tick block s"
  have s1: "?s1 = emit [SendRealtimeInput ''audio/pcm;rate=16000''
      (encodeAudio (samplesToFrame block))] s"
    by (rule capture_tick_sends [OF Cons.prems])
  have "processorRef ?s1 = Some (ScriptProcessor False)" "sessionPromise ?s1 = Fulfilled"
    using Cons.prems by (simp_all add: s1 emit_def)
  from Cons.IH [OF this] show ?case by (simp add: s1 emit_def)
qed

text \<open>
  C5. The claim: a capture callback skips the block when muted is true and sends it,
  once and tagged \<open>audio/pcm;rate=16000\<close>, otherwise; toggling mute only gates the send.
  On the code the callback reads the \<open>isMuted\<close> that the effect captured when the voice
  UI was opened. After a session opened unmuted, toggling mute sets \<open>isMuted\<close> and the
  next block is still sent; after a session opened muted, toggling mute clears
  \<open>isMuted\<close> and the next block is still skipped. Toggling changes neither the session
  nor the stream.
\<close>

theorem C5_mute_toggle_does_not_gate:
  "isMuted (toggleMute streaming) \<and>
   effects (capture_tick block (toggleMute streaming)) =
     [SendRealtimeInput ''audio/pcm;rate=16000'' (encodeAudio (samplesToFrame block))] \<and>
   sessionRef (toggleMute streaming) = sessionRef streaming \<and>
   streamRef (toggleMute streaming) = streamRef streaming \<and>
   isMuted opened_muted \<and>
   \<not> isMuted (toggleMute opened_muted) \<and>
   effects (capture_tick block (toggleMute opened_muted)) = []"
proof -
  have p: "processorRef (toggleMute streaming) = Some (ScriptProcessor False)"
    "sessionPromise (toggleMute streaming) = Fulfilled"
    by (simp_all add: toggleMute_fields streaming_fields)
  have tick: "effects (capture_tick block (toggleMute streaming)) =
     [SendRealtimeInput ''audio/pcm;rate=16000'' (encodeAudio (samplesToFrame block))]"
    by (simp add: capture_tick_sends [OF p] emit_def toggleMute_fields streaming_fields)
  have pm: "processorRef (toggleMute opened_muted) = Some (ScriptProcessor True)"
    by (simp add: opened_muted_def toggleMute_def session_fulfilled_def emit_def onopen_def
        getUserMedia_settled_def open_effect_def mounted_def)
  have em: "effects opened_muted = []"
    by (simp add: opened_muted_def toggleMute_def session_fulfilled_def emit_def onopen_def
        getUserMedia_settled_def open_effect_def mounted_def)
  have im: "isMuted opened_muted"
    by (simp add: opened_muted_def toggleMute_def session_fulfilled_def emit_def onopen_def
        getUserMedia_settled_def open_effect_def mounted_def)
  show ?thesis
    using im by (simp add: tick toggleMute_fields streaming_fields capture_tick_skips [OF pm] em)
qed

section \<open>Properties of the paper fetch\<close>

lemma fetch_cases:
  "generateArxivPapers_with parse service topic count =
     (case service topic count of
        Inl e \<Rightarrow> Inr (JArray [])
      | Inr t \<Rightarrow>
          (case parse (json_slice (strip_fences (response_text t))) of
             Inl e \<Rightarrow> Inr (JArray [])
           | Inr v \<Rightarrow> Inr v))"
  by (simp add: generateArxivPapers_with_def)

lemma parse_numeric_year:
  "JSON_parse numeric_year_reply =
     Inr (JArray [JObject [(''title'', JString ''A''), (''year'', JNumber ''2024'')]])"
  by code_simp

lemma slice_numeric_year:
  "json_slice (strip_fences (response_text (Some numeric_year_reply))) = numeric_year_reply"
  by code_simp

lemma parse_number_42: "JSON_parse (json_slice (strip_fences (response_text (Some ''42''))))
    = Inr (JNumber ''42'')"
  by code_simp

lemma parse_fenced:
  "JSON_parse (json_slice (strip_fences (response_text
      (Some fenced_reply))))
    = Inr (JArray [])"
  by code_simp

lemma parse_apology:
  "JSON_parse (json_slice (strip_fences (response_text (Some ''Sorry, no [papers] found.''))))
    = Inl SyntaxError"
  by code_simp

text \<open>
  C10, as stated: for every topic and count the operation returns a list of paper
  records. The value returned is whatever \<open>JSON.parse\<close> gives, unchecked: for the reply
  \<^verbatim>\<open>[{"title":"A","year":2024}]\<close> it is a list whose record has a numeric year and no
  authors, summary, highlights or link, and for the reply \<open>42\<close> it is a number.
\<close>

theorem C10_unchecked_shape_counterexample:
  "generateArxivPapers (answering numeric_year_reply) ''rag'' 5 =
     Inr (JArray [JObject [(''title'', JString ''A''), (''year'', JNumber ''2024'')]]) \<and>
   \<not> is_paper_list (JArray [JObject [(''title'', JString ''A''), (''year'', JNumber ''2024'')]]) \<and>
   generateArxivPapers (answering ''42'') ''rag'' 5 = Inr (JNumber ''42'') \<and>
   \<not> is_paper_list (JNumber ''42'')"
proof -
  have a: "generateArxivPapers (answering numeric_year_reply) ''rag'' 5 =
     Inr (JArray [JObject [(''title'', JString ''A''), (''year'', JNumber ''2024'')]])"
    by (simp add: generateArxivPapers_def fetch_cases answering_def slice_numeric_year
        parse_numeric_year)
  have b: "generateArxivPapers (answering ''42'') ''rag'' 5 = Inr (JNumber ''42'')"
    by (simp add: generateArxivPapers_def fetch_cases answering_def parse_number_42)
  have c: "\<not> is_paper_list (JArray [JObject [(''title'', JString ''A''), (''year'', JNumber ''2024'')]])"
    by (simp add: has_field_def)
  show ?thesis using a b c by simp
qed

text \<open>
  C10, amended: for every topic and count, whatever the service and \<open>JSON.parse\<close> do, the
  paper fetch returns and never throws. When the request fails, and when \<open>JSON.parse\<close>
  rejects the text taken from the response (code fences removed, then the part from
  the first \<open>[\<close> to the last \<open>]\<close> if both occur, else all of it; \<open>[]\<close> for a missing or
  empty text), it returns the empty list. Otherwise it returns the parsed value as it
  is, with no check that it is a list of paper records.
\<close>

theorem C10_fetch_never_throws:
  "(\<exists>v. generateArxivPapers_with parse service topic count = Inr v) \<and>
   (service topic count = Inl e \<longrightarrow>
      generateArxivPapers_with parse service topic count = Inr (JArray [])) \<and>
   (service topic count = Inr t \<and> parse (json_slice (strip_fences (response_text t))) = Inl e \<longrightarrow>
      generateArxivPapers_with parse service topic count = Inr (JArray [])) \<and>
   (service topic count = Inr t \<and> parse (json_slice (strip_fences (response_text t))) = Inr v \<longrightarrow>
      generateArxivPapers_with parse service topic count = Inr v) \<and>
   is_paper_list (JArray [])"
  by (auto simp add: fetch_cases split: sum.splits)

theorem C10_fetch_witness:
  "generateArxivPapers failing_service ''rag'' 5 = Inr (JArray []) \<and>
   generateArxivPapers (answering ''Sorry, no [papers] found.'') ''rag'' 5 = Inr (JArray []) \<and>
   generateArxivPapers (answering fenced_reply) ''rag'' 5 = Inr (JArray []) \<and>
   generateArxivPapers (answering ''42'') ''rag'' 5 = Inr (JNumber ''42'')"
  using C10_fetch_never_throws [where parse = JSON_parse and service = failing_service
      and topic = "''rag''" and count = 5 and e = ServiceError]
    C10_fetch_never_throws [where parse = JSON_parse
      and service = "answering ''Sorry, no [papers] found.''"
      and topic = "''rag''" and count = 5 and e = SyntaxError
      and t = "Some ''Sorry, no [papers] found.''"]
    C10_fetch_never_throws [where parse = JSON_parse
      and service = "answering fenced_reply"
      and topic = "''rag''" and count = 5 and v = "JArray []"
      and t = "Some fenced_reply"]
    C10_fetch_never_throws [where parse = JSON_parse and service = "answering ''42''"
      and topic = "''rag''" and count = 5 and v = "JNumber ''42''" and t = "Some ''42''"]
  by (simp add: generateArxivPapers_def failing_service_def answering_def parse_apology
      parse_fenced parse_number_42)

end
